theory Spec2Isabelle
  imports Main "HOL-Library.Word"
begin

unbundle bit_operations_syntax

section \<open>Constants of the script\<close>

type_synonym hwnd = int
type_synonym rect = "int \<times> int \<times> int \<times> int"

definition LEAGUE_WINDOW_TITLE :: string where
  "LEAGUE_WINDOW_TITLE = ''League of Legends (TM) Client''"

definition POLL_INTERVAL_MS :: nat where
  "POLL_INTERVAL_MS = 100"

definition TASKBAR_CLASS :: string where
  "TASKBAR_CLASS = ''Shell_TrayWnd''"

definition START_BUTTON_CLASS :: string where
  "START_BUTTON_CLASS = ''Button''"

subsection \<open>Constants of \<^verbatim>\<open>win32con\<close> used by the script\<close>

text \<open>
  The script reads these from the \<^verbatim>\<open>win32con\<close> module; the values are the ones of the
  Windows headers.
\<close>

definition SW_HIDE :: int where "SW_HIDE = 0"
definition SW_SHOW :: int where "SW_SHOW = 5"

definition SWP_NOSIZE :: "32 word" where "SWP_NOSIZE = 0x0001"
definition SWP_NOMOVE :: "32 word" where "SWP_NOMOVE = 0x0002"
definition SWP_NOZORDER :: "32 word" where "SWP_NOZORDER = 0x0004"
definition SWP_NOACTIVATE :: "32 word" where "SWP_NOACTIVATE = 0x0010"
definition SWP_SHOWWINDOW :: "32 word" where "SWP_SHOWWINDOW = 0x0040"
definition SWP_HIDEWINDOW :: "32 word" where "SWP_HIDEWINDOW = 0x0080"

definition WS_POPUP :: "32 word" where "WS_POPUP = 0x80000000"
definition WS_VISIBLE :: "32 word" where "WS_VISIBLE = 0x10000000"
definition WS_EX_LAYERED :: "32 word" where "WS_EX_LAYERED = 0x00080000"
definition WS_EX_TOOLWINDOW :: "32 word" where "WS_EX_TOOLWINDOW = 0x00000080"
definition WS_EX_TRANSPARENT :: "32 word" where "WS_EX_TRANSPARENT = 0x00000020"
definition WS_EX_NOACTIVATE :: "32 word" where "WS_EX_NOACTIVATE = 0x08000000"
definition LWA_ALPHA :: "32 word" where "LWA_ALPHA = 0x00000002"

section \<open>The desktop and the operating system\<close>

text \<open>
  The script talks to Windows through \<^verbatim>\<open>win32gui\<close>, \<^verbatim>\<open>win32api\<close> and \<^verbatim>\<open>ctypes\<close>. What
  the script can observe and change of a window is kept in a \<open>window\<close> record: whether the
  window exists, whether it is visible, its position and size, the window it was last placed
  directly behind in the z-order, its styles and its opacity.
\<close>

record window =
  alive :: bool
  visible :: bool
  w_pos :: "int \<times> int"
  w_size :: "int \<times> int"
  insert_after :: "hwnd option"
  ex_style :: "32 word"
  style :: "32 word"
  alpha :: nat

text \<open>The native calls that change the desktop.\<close>

datatype call =
    ShowWindow hwnd int
  | SetWindowPos hwnd hwnd int int int int "32 word"
  | RegisterClass string
  | CreateWindowEx "32 word" string string "32 word" int int int int
  | SetLayeredWindowAttributes hwnd nat nat "32 word"
  | DestroyWindow hwnd

text \<open>
  The program state: the two module-level globals of the script, the windows of the
  desktop by handle, the window that holds the input focus, what the script has printed
  so far, and the native calls it has made so far, in order.
\<close>

datatype printed =
    Print string
  | PrintActivated rect
  | PrintError string

record world =
  black_window_hwnd :: "hwnd option"
  black_bars_active :: bool
  windows :: "hwnd \<Rightarrow> window"
  active_window :: hwnd
  stdout :: "printed list"
  calls :: "call list"

record monitor_info =
  Monitor :: rect
  Work :: rect

text \<open>
  What the operating system answers at one instant. A query that raises is \<open>None\<close>;
  \<open>FindWindow\<close> and \<open>FindWindowEx\<close> answer the handle 0 when no window matches, which is
  what the script's \<^verbatim>\<open>or None\<close> expects. \<open>raises c\<close> is \<open>Some msg\<close> when the native call \<open>c\<close>
  fails and \<^verbatim>\<open>win32gui\<close> raises an exception with text \<open>msg\<close>. \<open>NewWindow\<close> is the handle
  that a successful \<open>CreateWindowEx\<close> returns.
\<close>

record os =
  GetForegroundWindow :: hwnd
  GetWindowText :: "hwnd \<Rightarrow> string option"
  IsIconic :: "hwnd \<Rightarrow> bool option"
  GetMonitorInfo :: "hwnd \<Rightarrow> monitor_info option"
  FindWindow :: "string option \<Rightarrow> string option \<Rightarrow> hwnd"
  FindWindowEx :: "hwnd \<Rightarrow> hwnd \<Rightarrow> string option \<Rightarrow> string option \<Rightarrow> hwnd"
  NewWindow :: hwnd
  raises :: "call \<Rightarrow> string option"

subsection \<open>Python statements that may raise\<close>

text \<open>
  \<open>Error\<close> is an exception of class \<^verbatim>\<open>Exception\<close> with its text; \<open>SystemExit\<close> is what
  \<^verbatim>\<open>sys.exit\<close> raises, which \<^verbatim>\<open>except Exception\<close> does not catch.
\<close>

datatype exn = Error string | SystemExit int

datatype 'a result = Return 'a | Raise exn

type_synonym 'a io = "world \<Rightarrow> 'a result \<times> world"

definition return_io :: "'a \<Rightarrow> 'a io" where
  "return_io a w = (Return a, w)"

definition bind_io :: "'a io \<Rightarrow> ('a \<Rightarrow> 'b io) \<Rightarrow> 'b io" where
  "bind_io m f w = (case m w of (Return a, w') \<Rightarrow> f a w' | (Raise x, w') \<Rightarrow> (Raise x, w'))"

text \<open>\<^verbatim>\<open>try: m  except Exception: pass\<close>\<close>

definition try_except_pass :: "unit io \<Rightarrow> unit io" where
  "try_except_pass m w =
     (case m w of
        (Raise (SystemExit c), w') \<Rightarrow> (Raise (SystemExit c), w')
      | (_, w') \<Rightarrow> (Return (), w'))"

text \<open>\<^verbatim>\<open>if h: f(h)\<close> for a handle that may be \<^verbatim>\<open>None\<close>: 0 and \<^verbatim>\<open>None\<close> are both false.\<close>

fun if_handle :: "hwnd option \<Rightarrow> (hwnd \<Rightarrow> unit io) \<Rightarrow> unit io" where
  "if_handle None f = return_io ()"
| "if_handle (Some h) f = (if h \<noteq> 0 then f h else return_io ())"

text \<open>\<^verbatim>\<open>x or None\<close> for a handle \<open>x\<close>.\<close>

definition or_None :: "hwnd \<Rightarrow> hwnd option" where
  "or_None x = (if x \<noteq> 0 then Some x else None)"

definition print :: "printed \<Rightarrow> unit io" where
  "print x w = (Return (), w\<lparr>stdout := stdout w @ [x]\<rparr>)"

subsection \<open>What the native calls do\<close>

definition has_flag :: "32 word \<Rightarrow> 32 word \<Rightarrow> bool" where
  "has_flag flags f \<longleftrightarrow> flags AND f \<noteq> 0"

text \<open>
  \<open>ShowWindow\<close> with \<open>SW_HIDE\<close> hides the window, with \<open>SW_SHOW\<close> shows it.
  \<open>SetWindowPos\<close> moves the window unless \<open>SWP_NOMOVE\<close>, resizes it unless \<open>SWP_NOSIZE\<close>,
  places it directly behind \<open>after\<close> unless \<open>SWP_NOZORDER\<close>, gives it the input focus unless
  \<open>SWP_NOACTIVATE\<close>, and shows or hides it on \<open>SWP_SHOWWINDOW\<close> or \<open>SWP_HIDEWINDOW\<close>.
  \<open>CreateWindowEx\<close> makes the window \<open>NewWindow\<close>, visible only with \<open>WS_VISIBLE\<close>.
  \<open>SetLayeredWindowAttributes\<close> with \<open>LWA_ALPHA\<close> sets the opacity.
  \<open>DestroyWindow\<close> ends the window: a window is on the screen while it is alive and
  visible.
\<close>

fun effect :: "os \<Rightarrow> call \<Rightarrow> world \<Rightarrow> world" where
  "effect e (ShowWindow h cmd) w =
     w\<lparr>windows := (windows w)(h := (windows w h)\<lparr>visible := (cmd \<noteq> SW_HIDE)\<rparr>)\<rparr>"
| "effect e (SetWindowPos h after x y cx cy flags) w =
     w\<lparr>windows := (windows w)(h := (windows w h)
          \<lparr>visible := (if has_flag flags SWP_SHOWWINDOW then True
                       else if has_flag flags SWP_HIDEWINDOW then False
                       else visible (windows w h)),
           w_pos := (if has_flag flags SWP_NOMOVE then w_pos (windows w h) else (x, y)),
           w_size := (if has_flag flags SWP_NOSIZE then w_size (windows w h) else (cx, cy)),
           insert_after := (if has_flag flags SWP_NOZORDER then insert_after (windows w h)
                            else Some after)\<rparr>),
       active_window := (if has_flag flags SWP_NOACTIVATE then active_window w else h)\<rparr>"
| "effect e (RegisterClass name) w = w"
| "effect e (CreateWindowEx exs cls title st x y cx cy) w =
     w\<lparr>windows := (windows w)(NewWindow e :=
          \<lparr>alive = True, visible = has_flag st WS_VISIBLE, w_pos = (x, y), w_size = (cx, cy),
           insert_after = None, ex_style = exs, style = st, alpha = 0\<rparr>)\<rparr>"
| "effect e (SetLayeredWindowAttributes h key a flags) w =
     (if has_flag flags LWA_ALPHA
      then w\<lparr>windows := (windows w)(h := (windows w h)\<lparr>alpha := a\<rparr>)\<rparr> else w)"
| "effect e (DestroyWindow h) w =
     w\<lparr>windows := (windows w)(h := (windows w h)\<lparr>alive := False\<rparr>)\<rparr>"

text \<open>
  A call through \<^verbatim>\<open>win32gui\<close>: the call is made; it raises and changes nothing on the
  desktop, or it takes effect.
\<close>

definition win32gui :: "os \<Rightarrow> call \<Rightarrow> unit io" where
  "win32gui e c w =
     (let w1 = w\<lparr>calls := calls w @ [c]\<rparr> in
      case raises e c of
        Some msg \<Rightarrow> (Raise (Error msg), w1)
      | None \<Rightarrow> (Return (), effect e c w1))"

text \<open>
  A call through \<^verbatim>\<open>ctypes.windll.user32\<close>: a foreign function returns its status and
  raises nothing.
\<close>

definition ctypes_user32 :: "os \<Rightarrow> call \<Rightarrow> unit io" where
  "ctypes_user32 e c w = (Return (), effect e c (w\<lparr>calls := calls w @ [c]\<rparr>))"

section \<open>Window detection\<close>

definition get_foreground_window :: "os \<Rightarrow> hwnd" where
  "get_foreground_window e = GetForegroundWindow e"

definition get_window_title :: "os \<Rightarrow> hwnd \<Rightarrow> string" where
  "get_window_title e h = (case GetWindowText e h of Some t \<Rightarrow> t | None \<Rightarrow> '''')"

definition is_window_minimized :: "os \<Rightarrow> hwnd \<Rightarrow> bool" where
  "is_window_minimized e h = (case IsIconic e h of Some b \<Rightarrow> b | None \<Rightarrow> False)"

definition is_league_game_window :: "os \<Rightarrow> hwnd \<Rightarrow> bool" where
  "is_league_game_window e h \<longleftrightarrow> get_window_title e h = LEAGUE_WINDOW_TITLE"

definition find_league_window :: "os \<Rightarrow> hwnd option" where
  "find_league_window e = or_None (FindWindow e None (Some LEAGUE_WINDOW_TITLE))"

section \<open>Monitor detection\<close>

definition get_monitor_info :: "os \<Rightarrow> hwnd \<Rightarrow> monitor_info option" where
  "get_monitor_info e h = GetMonitorInfo e h"

definition get_monitor_rect :: "os \<Rightarrow> hwnd \<Rightarrow> rect option" where
  "get_monitor_rect e h =
     (case get_monitor_info e h of Some mi \<Rightarrow> Some (Monitor mi) | None \<Rightarrow> None)"

section \<open>Black background window\<close>

definition create_window_class :: "os \<Rightarrow> string io" where
  "create_window_class e =
     bind_io (try_except_pass (win32gui e (RegisterClass ''LeagueBlackBarsWindow'')))
       (\<lambda>_. return_io ''LeagueBlackBarsWindow'')"

definition create_black_window :: "os \<Rightarrow> rect \<Rightarrow> hwnd io" where
  "create_black_window e monitor_rect =
     bind_io (create_window_class e) (\<lambda>class_name.
       (case monitor_rect of (left_, top_, right_, bottom_) \<Rightarrow>
          (let width = right_ - left_;
               height = bottom_ - top_;
               exs = WS_EX_LAYERED OR WS_EX_TOOLWINDOW OR WS_EX_TRANSPARENT OR WS_EX_NOACTIVATE;
               st = WS_POPUP
           in bind_io (win32gui e
                 (CreateWindowEx exs class_name ''Black Background'' st left_ top_ width height))
                (\<lambda>_. bind_io (ctypes_user32 e
                          (SetLayeredWindowAttributes (NewWindow e) 0 255 LWA_ALPHA))
                   (\<lambda>_. return_io (NewWindow e))))))"

definition show_black_window :: "os \<Rightarrow> hwnd \<Rightarrow> hwnd \<Rightarrow> unit io" where
  "show_black_window e h league_hwnd =
     win32gui e (SetWindowPos h league_hwnd 0 0 0 0
       (SWP_NOMOVE OR SWP_NOSIZE OR SWP_NOACTIVATE OR SWP_SHOWWINDOW))"

definition hide_black_window :: "os \<Rightarrow> hwnd \<Rightarrow> unit io" where
  "hide_black_window e h = try_except_pass (win32gui e (ShowWindow h SW_HIDE))"

definition destroy_black_window :: "os \<Rightarrow> hwnd \<Rightarrow> unit io" where
  "destroy_black_window e h = try_except_pass (win32gui e (DestroyWindow h))"

section \<open>Taskbar management\<close>

definition find_taskbar :: "os \<Rightarrow> hwnd option" where
  "find_taskbar e = or_None (FindWindow e (Some TASKBAR_CLASS) None)"

definition find_start_button :: "os \<Rightarrow> hwnd option" where
  "find_start_button e =
     (case find_taskbar e of
        Some taskbar \<Rightarrow>
          (if taskbar \<noteq> 0
           then or_None (FindWindowEx e 0 0 (Some START_BUTTON_CLASS) (Some ''Start''))
           else None)
      | None \<Rightarrow> None)"

definition hide_taskbar :: "os \<Rightarrow> unit io" where
  "hide_taskbar e =
     bind_io (if_handle (find_taskbar e) (\<lambda>taskbar. win32gui e (ShowWindow taskbar SW_HIDE)))
       (\<lambda>_. if_handle (find_start_button e) (\<lambda>start. win32gui e (ShowWindow start SW_HIDE)))"

definition show_taskbar :: "os \<Rightarrow> unit io" where
  "show_taskbar e =
     bind_io (if_handle (find_taskbar e) (\<lambda>taskbar. win32gui e (ShowWindow taskbar SW_SHOW)))
       (\<lambda>_. if_handle (find_start_button e) (\<lambda>start. win32gui e (ShowWindow start SW_SHOW)))"

section \<open>Main logic\<close>

definition activate_black_bars :: "os \<Rightarrow> hwnd \<Rightarrow> unit io" where
  "activate_black_bars e league_hwnd =
     (case get_monitor_rect e league_hwnd of
        None \<Rightarrow> print (Print ''Warning: Could not determine monitor for League window'')
      | Some monitor_rect \<Rightarrow>
          bind_io (\<lambda>w. case black_window_hwnd w of
                         None \<Rightarrow> bind_io (create_black_window e monitor_rect)
                                  (\<lambda>h w'. (Return (), w'\<lparr>black_window_hwnd := Some h\<rparr>)) w
                       | Some _ \<Rightarrow> (Return (), w))
            (\<lambda>_. bind_io (\<lambda>w. show_black_window e (the (black_window_hwnd w)) league_hwnd w)
               (\<lambda>_. bind_io (hide_taskbar e)
                  (\<lambda>_. bind_io (\<lambda>w. (Return (), w\<lparr>black_bars_active := True\<rparr>))
                     (\<lambda>_. print (PrintActivated monitor_rect))))))"

definition deactivate_black_bars :: "os \<Rightarrow> unit io" where
  "deactivate_black_bars e =
     bind_io (\<lambda>w. if_handle (black_window_hwnd w) (hide_black_window e) w)
       (\<lambda>_. bind_io (show_taskbar e)
          (\<lambda>_. bind_io (\<lambda>w. (Return (), w\<lparr>black_bars_active := False\<rparr>))
             (\<lambda>_. print (Print ''Black bars deactivated''))))"

definition cleanup :: "os \<Rightarrow> unit io" where
  "cleanup e =
     bind_io (print (Print ''\<newline>Cleaning up...''))
       (\<lambda>_. bind_io (show_taskbar e)
          (\<lambda>_. bind_io (\<lambda>w. if_handle (black_window_hwnd w)
                              (\<lambda>h. bind_io (destroy_black_window e h)
                                 (\<lambda>_ w'. (Return (), w'\<lparr>black_window_hwnd := None\<rparr>))) w)
             (\<lambda>_. print (Print ''Cleanup complete''))))"

text \<open>One pass through the body of the polling loop, up to the sleep.\<close>

definition tick :: "os \<Rightarrow> unit io" where
  "tick e w =
     (let foreground_hwnd = get_foreground_window e in
      if is_league_game_window e foreground_hwnd \<and> \<not> is_window_minimized e foreground_hwnd
      then (if \<not> black_bars_active w then activate_black_bars e foreground_hwnd w
            else (Return (), w))
      else (if black_bars_active w then deactivate_black_bars e w
            else (Return (), w)))"

text \<open>
  \<^verbatim>\<open>signal_handler\<close>, installed for \<^verbatim>\<open>SIGINT\<close> and \<^verbatim>\<open>SIGTERM\<close> before the loop starts.
\<close>

definition signal_handler :: "os \<Rightarrow> unit io" where
  "signal_handler e = bind_io (cleanup e) (\<lambda>_ w. (Raise (SystemExit 0), w))"

text \<open>
  What happens to the process, one event after the other: \<open>Poll e\<close> is one pass of the
  loop while the operating system answers \<open>e\<close>; \<open>Signal e\<close> is an interrupt or terminate
  signal that arrives during the sleep that follows a pass.
\<close>

datatype event = Poll os | Signal os

text \<open>
  \<^verbatim>\<open>while True\<close> over the events. The loop has no exit of its own: it is run as far as
  the events reach, and the result is \<open>None\<close> while the loop is still going after the last
  event, or the exception that left the loop together with the answers of the operating
  system at that instant.
\<close>

fun polling_loop :: "event list \<Rightarrow> world \<Rightarrow> (exn \<times> os) option \<times> world" where
  "polling_loop [] w = (None, w)"
| "polling_loop (Poll e # es) w =
     (case tick e w of
        (Return _, w') \<Rightarrow> polling_loop es w'
      | (Raise x, w') \<Rightarrow> (Some (x, e), w'))"
| "polling_loop (Signal e # es) w =
     (case signal_handler e w of
        (Return _, w') \<Rightarrow> polling_loop es w'
      | (Raise x, w') \<Rightarrow> (Some (x, e), w'))"

text \<open>How the process ends: still running, or exited with a code.\<close>

datatype status = Running | Exited int

definition exit_code :: "unit result \<Rightarrow> int" where
  "exit_code r = (case r of Return _ \<Rightarrow> 0 | Raise (SystemExit c) \<Rightarrow> c | Raise (Error _) \<Rightarrow> 1)"

text \<open>
  \<^verbatim>\<open>try: body  except Exception as e: handler(e)  finally: final\<close>, for a body that has
  already run to \<open>r\<close>: an \<open>Error\<close> is handled, then \<open>final\<close> runs in every case, and what
  \<open>final\<close> raises replaces what was pending.
\<close>

definition except_finally ::
  "unit result \<Rightarrow> (string \<Rightarrow> unit io) \<Rightarrow> unit io \<Rightarrow> unit io" where
  "except_finally r handler final w =
     (case (case r of Raise (Error msg) \<Rightarrow> handler msg w | _ \<Rightarrow> (r, w)) of
        (r', w') \<Rightarrow>
          (case final w' of
             (Return _, w'') \<Rightarrow> (r', w'')
           | (Raise x, w'') \<Rightarrow> (Raise x, w'')))"

definition banner :: "printed list" where
  "banner =
     [Print ''League of Legends Black Bars Script'',
      Print (replicate 40 (CHR ''='')),
      Print (''Monitoring for window: '' @ [CHR 0x27] @ LEAGUE_WINDOW_TITLE @ [CHR 0x27]),
      Print ''Poll interval: 100ms'',
      Print ''Press Ctrl+C to exit'',
      Print (replicate 40 (CHR ''=''))]"

definition main :: "event list \<Rightarrow> world \<Rightarrow> status \<times> world" where
  "main es w0 =
     (case polling_loop es (w0\<lparr>stdout := stdout w0 @ banner\<rparr>) of
        (None, w) \<Rightarrow> (Running, w)
      | (Some (x, e), w) \<Rightarrow>
          (case except_finally (Raise x) (\<lambda>msg. print (PrintError msg)) (cleanup e) w of
             (r, w') \<Rightarrow> (Exited (exit_code r), w')))"

text \<open>The state of the module when the script starts, on a given desktop.\<close>

definition initial_world :: "(hwnd \<Rightarrow> window) \<Rightarrow> hwnd \<Rightarrow> world" where
  "initial_world ws a =
     \<lparr>black_window_hwnd = None, black_bars_active = False, windows = ws,
      active_window = a, stdout = [], calls = []\<rparr>"

section \<open>Notions used by the properties\<close>

text \<open>A window is on the screen while it exists and is visible.\<close>

definition on_screen :: "world \<Rightarrow> hwnd \<Rightarrow> bool" where
  "on_screen w h \<longleftrightarrow> alive (windows w h) \<and> visible (windows w h)"

text \<open>
  What can be observed of the program and the desktop: the two globals, the windows and
  the input focus, without the record of what was printed and called.
\<close>

definition observable :: "world \<Rightarrow> hwnd option \<times> bool \<times> (hwnd \<Rightarrow> window) \<times> hwnd" where
  "observable w = (black_window_hwnd w, black_bars_active w, windows w, active_window w)"

text \<open>The flags that \<open>show_black_window\<close> passes to \<open>SetWindowPos\<close>.\<close>

definition show_flags :: "32 word" where
  "show_flags = SWP_NOMOVE OR SWP_NOSIZE OR SWP_NOACTIVATE OR SWP_SHOWWINDOW"

text \<open>The task bar and the Start button, as far as the lookups find them.\<close>

definition taskbar_handles :: "os \<Rightarrow> hwnd list" where
  "taskbar_handles e =
     (case find_taskbar e of
        None \<Rightarrow> []
      | Some tb \<Rightarrow> tb # (case find_start_button e of None \<Rightarrow> [] | Some sb \<Rightarrow> [sb]))"

text \<open>The windows \<open>hs\<close> shown or hidden by \<open>ShowWindow\<close> with command \<open>c\<close>, one after the other.\<close>

definition show_windows :: "int \<Rightarrow> hwnd list \<Rightarrow> world \<Rightarrow> world" where
  "show_windows c hs w =
     w\<lparr>windows := (\<lambda>h. if h \<in> set hs then (windows w h)\<lparr>visible := (c \<noteq> SW_HIDE)\<rparr>
                         else windows w h),
       calls := calls w @ map (\<lambda>h. ShowWindow h c) hs\<rparr>"

text \<open>The common shape of \<open>hide_taskbar\<close> and \<open>show_taskbar\<close>.\<close>

definition taskbar_cmd :: "os \<Rightarrow> int \<Rightarrow> unit io" where
  "taskbar_cmd e c =
     bind_io (if_handle (find_taskbar e) (\<lambda>taskbar. win32gui e (ShowWindow taskbar c)))
       (\<lambda>_. if_handle (find_start_button e) (\<lambda>start. win32gui e (ShowWindow start c)))"

text \<open>
  The overlay that \<open>deactivate_black_bars\<close> hides: the handle of the global, when it is
  set, not 0, and \<open>ShowWindow\<close> does not fail on it.
\<close>

definition hides :: "os \<Rightarrow> world \<Rightarrow> hwnd \<Rightarrow> bool" where
  "hides e w h \<longleftrightarrow>
     black_window_hwnd w = Some h \<and> h \<noteq> 0 \<and> raises e (ShowWindow h SW_HIDE) = None"

text \<open>
  The overlay that \<open>cleanup\<close> destroys: the handle of the global, when it is set, not 0,
  and \<open>DestroyWindow\<close> does not fail on it.
\<close>

definition destroys :: "os \<Rightarrow> world \<Rightarrow> hwnd \<Rightarrow> bool" where
  "destroys e w h \<longleftrightarrow>
     black_window_hwnd w = Some h \<and> h \<noteq> 0 \<and> raises e (DestroyWindow h) = None"

text \<open>The native calls of one \<open>cleanup\<close> that returns, for the value \<open>x\<close> of the global.\<close>

definition cleanup_calls :: "os \<Rightarrow> hwnd option \<Rightarrow> call list" where
  "cleanup_calls e x =
     map (\<lambda>h. ShowWindow h SW_SHOW) (taskbar_handles e) @
     (case x of None \<Rightarrow> [] | Some h \<Rightarrow> if h \<noteq> 0 then [DestroyWindow h] else [])"

text \<open>
  The call by which \<open>create_black_window\<close> makes the overlay for the monitor rectangle
  \<open>mr\<close>, and the window that results once its opacity is set.
\<close>

definition overlay_ex_style :: "32 word" where
  "overlay_ex_style = WS_EX_LAYERED OR WS_EX_TOOLWINDOW OR WS_EX_TRANSPARENT OR WS_EX_NOACTIVATE"

definition create_call :: "rect \<Rightarrow> call" where
  "create_call mr =
     (case mr of (l, t, r, b) \<Rightarrow>
        CreateWindowEx overlay_ex_style ''LeagueBlackBarsWindow'' ''Black Background'' WS_POPUP
          l t (r - l) (b - t))"

definition new_overlay :: "rect \<Rightarrow> window" where
  "new_overlay mr =
     (case mr of (l, t, r, b) \<Rightarrow>
        \<lparr>alive = True, visible = False, w_pos = (l, t), w_size = (r - l, b - t),
         insert_after = None, ex_style = overlay_ex_style, style = WS_POPUP, alpha = 255\<rparr>)"

text \<open>The handle of the overlay after an activation: the one at hand, or the new one.\<close>

definition overlay_of :: "os \<Rightarrow> world \<Rightarrow> hwnd" where
  "overlay_of e w = (case black_window_hwnd w of None \<Rightarrow> NewWindow e | Some h \<Rightarrow> h)"

text \<open>
  The windows once \<open>activate_black_bars\<close> has made the overlay where there was none and
  has placed it behind the window \<open>lg\<close>.
\<close>

definition restacked :: "os \<Rightarrow> hwnd \<Rightarrow> rect \<Rightarrow> world \<Rightarrow> hwnd \<Rightarrow> window" where
  "restacked e lg mr w =
     (case black_window_hwnd w of
        None \<Rightarrow> (windows w)(NewWindow e :=
                   (new_overlay mr)\<lparr>visible := True, insert_after := Some lg\<rparr>)
      | Some x \<Rightarrow> (windows w)(x :=
                   (windows w x)\<lparr>visible := True, insert_after := Some lg\<rparr>))"

text \<open>The foreground window is the game window and is not minimized.\<close>

definition league_in_front :: "os \<Rightarrow> bool" where
  "league_in_front e \<longleftrightarrow>
     is_league_game_window e (get_foreground_window e) \<and>
     \<not> is_window_minimized e (get_foreground_window e)"

text \<open>How many times the script has called \<open>CreateWindowEx\<close>.\<close>

fun is_create :: "call \<Rightarrow> bool" where
  "is_create (CreateWindowEx exs cls title st x y cx cy) = True"
| "is_create _ = False"

definition creations :: "world \<Rightarrow> nat" where
  "creations w = length (filter is_create (calls w))"

text \<open>
  What only the creation and the destruction of the overlay change: the handle held by
  the script, the number of creations, and which windows exist.
\<close>

definition core :: "world \<Rightarrow> hwnd option \<times> nat \<times> (hwnd \<Rightarrow> bool)" where
  "core w = (black_window_hwnd w, creations w, \<lambda>h. alive (windows w h))"

text \<open>A statement keeps an observation \<open>g\<close> of the state, however it ends.\<close>

definition keeps :: "(world \<Rightarrow> 'b) \<Rightarrow> 'a io \<Rightarrow> bool" where
  "keeps g m \<longleftrightarrow> (\<forall>w. g (snd (m w)) = g w)"

text \<open>The script holds a handle exactly when it has made one creation.\<close>

definition handle_counts :: "world \<Rightarrow> bool" where
  "handle_counts w \<longleftrightarrow> creations w = (if black_window_hwnd w = None then 0 else 1)"

text \<open>The state in which \<open>main\<close> enters the loop: the banner has been printed.\<close>

definition started :: "world \<Rightarrow> world" where
  "started w0 = w0\<lparr>stdout := stdout w0 @ banner\<rparr>"

text \<open>
  The desktop is restored in \<open>w'\<close>, for the state \<open>w\<close> in which the cleanup began: the
  task bar and the Start button that the lookups find are visible, the overlay on which
  \<open>DestroyWindow\<close> did not fail is gone, and the script holds no handle any more (0 is the
  null handle and never a window).
\<close>

definition restored :: "os \<Rightarrow> world \<Rightarrow> world \<Rightarrow> bool" where
  "restored e w w' \<longleftrightarrow>
     (\<forall>h\<in>set (taskbar_handles e). visible (windows w' h)) \<and>
     (\<forall>h. destroys e w h \<longrightarrow> \<not> alive (windows w' h)) \<and>
     (black_window_hwnd w \<noteq> Some 0 \<longrightarrow> black_window_hwnd w' = None)"

text \<open>The answers of the operating system at an event.\<close>

fun event_os :: "event \<Rightarrow> os" where
  "event_os (Poll e) = e"
| "event_os (Signal e) = e"

text \<open>
  A steady environment: the lookups find the task bar and Start button \<open>tbs\<close>, a created
  window gets the handle \<open>nw\<close>, the game window in front is \<open>lg\<close>, its monitor rectangle,
  when it can be determined, is \<open>mr\<close>, and hiding and destroying the window \<open>nw\<close> do not
  fail.
\<close>

definition steady :: "hwnd \<Rightarrow> rect \<Rightarrow> hwnd list \<Rightarrow> hwnd \<Rightarrow> os \<Rightarrow> bool" where
  "steady lg mr tbs nw e \<longleftrightarrow>
     taskbar_handles e = tbs \<and> NewWindow e = nw \<and>
     (league_in_front e \<longrightarrow> get_foreground_window e = lg) \<and>
     (\<forall>mr'. get_monitor_rect e lg = Some mr' \<longrightarrow> mr' = mr) \<and>
     raises e (ShowWindow nw SW_HIDE) = None \<and>
     raises e (DestroyWindow nw) = None"

text \<open>
  The desktop follows the flag. The script holds no overlay, the black bars are off and
  the window \<open>nw\<close> does not exist; or it holds the overlay \<open>nw\<close>, which exists, has the
  position and size of the monitor rectangle \<open>mr\<close>, is visible exactly while the black
  bars are on, and is then directly behind the window \<open>lg\<close>. The task bar and the Start
  button are visible exactly while the black bars are off.
\<close>

definition bars_inv :: "hwnd \<Rightarrow> rect \<Rightarrow> hwnd list \<Rightarrow> hwnd \<Rightarrow> world \<Rightarrow> bool" where
  "bars_inv lg mr tbs nw w \<longleftrightarrow>
     (case black_window_hwnd w of
        None \<Rightarrow> \<not> black_bars_active w \<and> \<not> alive (windows w nw)
      | Some h \<Rightarrow>
          h = nw \<and> alive (windows w nw) \<and>
          w_pos (windows w nw) = (fst mr, fst (snd mr)) \<and>
          w_size (windows w nw) =
            (fst (snd (snd mr)) - fst mr, snd (snd (snd mr)) - fst (snd mr)) \<and>
          (visible (windows w nw) \<longleftrightarrow> black_bars_active w) \<and>
          (black_bars_active w \<longrightarrow> insert_after (windows w nw) = Some lg)) \<and>
     (\<forall>t\<in>set tbs. visible (windows w t) \<longleftrightarrow> \<not> black_bars_active w)"

text \<open>The script holds the window \<open>nw\<close>, or it holds none and \<open>nw\<close> does not exist.\<close>

definition holds_or_gone :: "hwnd \<Rightarrow> world \<Rightarrow> bool" where
  "holds_or_gone nw w \<longleftrightarrow>
     black_window_hwnd w = Some nw \<or>
     black_window_hwnd w = None \<and> \<not> alive (windows w nw)"

subsection \<open>Desktops and answers of the operating system used as examples\<close>

text \<open>
  A desktop on which every window is visible; the task bar is window 10, the Start button
  window 11, the game window 100, and the next window created gets the handle 500.
\<close>

definition desk0 :: "hwnd \<Rightarrow> window" where
  "desk0 = (\<lambda>_. \<lparr>alive = True, visible = True, w_pos = (0, 0), w_size = (0, 0),
                   insert_after = None, ex_style = 0, style = 0, alpha = 255\<rparr>)"

text \<open>The same desktop before the window 500 exists.\<close>

definition desk_fresh :: "hwnd \<Rightarrow> window" where
  "desk_fresh = desk0(500 := (desk0 500)\<lparr>alive := False, visible := False\<rparr>)"

definition os_league :: os where
  "os_league =
     \<lparr>GetForegroundWindow = 100,
      GetWindowText = (\<lambda>h. if h = 100 then Some LEAGUE_WINDOW_TITLE else Some ''Notepad''),
      IsIconic = (\<lambda>_. Some False),
      GetMonitorInfo = (\<lambda>_. Some \<lparr>Monitor = (0, 0, 1920, 1080), Work = (0, 0, 1920, 1040)\<rparr>),
      FindWindow = (\<lambda>cls title. if cls = Some TASKBAR_CLASS then 10 else 0),
      FindWindowEx = (\<lambda>parent child cls title. if cls = Some START_BUTTON_CLASS then 11 else 0),
      NewWindow = 500,
      raises = (\<lambda>_. None)\<rparr>"

definition os_notepad :: os where
  "os_notepad = os_league\<lparr>GetForegroundWindow := 200\<rparr>"

definition os_no_monitor :: os where
  "os_no_monitor = os_league\<lparr>GetMonitorInfo := (\<lambda>_. None)\<rparr>"

definition os_no_taskbar :: os where
  "os_no_taskbar = os_league\<lparr>FindWindow := (\<lambda>_ _. 0)\<rparr>"

definition os_no_start :: os where
  "os_no_start = os_league\<lparr>FindWindowEx := (\<lambda>_ _ _ _. 0)\<rparr>"

text \<open>\<open>SetWindowPos\<close> fails and \<^verbatim>\<open>win32gui\<close> raises.\<close>

definition os_setpos_fails :: os where
  "os_setpos_fails =
     os_league\<lparr>raises := (\<lambda>c. case c of SetWindowPos h a x y cx cy fl \<Rightarrow> Some ''SetWindowPos''
                                   | _ \<Rightarrow> None)\<rparr>"

text \<open>
  \<open>ShowWindow\<close> with \<open>SW_SHOW\<close> fails and \<^verbatim>\<open>win32gui\<close> raises, with the game window in
  front and with another window in front.
\<close>

definition os_show_fails :: os where
  "os_show_fails =
     os_league\<lparr>raises := (\<lambda>c. case c of ShowWindow h cmd \<Rightarrow>
                                     if cmd = SW_SHOW then Some ''ShowWindow'' else None
                                   | _ \<Rightarrow> None)\<rparr>"

definition os_notepad_show_fails :: os where
  "os_notepad_show_fails = os_show_fails\<lparr>GetForegroundWindow := 200\<rparr>"

text \<open>The game window is on a second monitor, to the right of the first.\<close>

definition os_second_monitor :: os where
  "os_second_monitor =
     os_league\<lparr>GetMonitorInfo :=
       (\<lambda>_. Some \<lparr>Monitor = (1920, 0, 3840, 1080), Work = (1920, 0, 3840, 1040)\<rparr>)\<rparr>"

text \<open>The state while the black bars are on: overlay 500 shown, task bar hidden.\<close>

definition world_active :: world where
  "world_active =
     \<lparr>black_window_hwnd = Some 500, black_bars_active = True,
      windows = desk0(10 := (desk0 10)\<lparr>visible := False\<rparr>, 11 := (desk0 11)\<lparr>visible := False\<rparr>),
      active_window = 100, stdout = [], calls = []\<rparr>"

text \<open>
  The state after a first pass with the game window in front, and after a second pass
  with another window in front.
\<close>

definition world_after_game :: world where
  "world_after_game = snd (polling_loop [Poll os_league] (started (initial_world desk0 0)))"

definition world_after_notepad :: world where
  "world_after_notepad =
     snd (polling_loop [Poll os_league, Poll os_notepad] (started (initial_world desk0 0)))"

section \<open>Auxiliary facts\<close>

lemmas swp_defs = has_flag_def SWP_NOMOVE_def SWP_NOSIZE_def SWP_NOACTIVATE_def
  SWP_SHOWWINDOW_def SWP_NOZORDER_def SWP_HIDEWINDOW_def

lemmas example_defs = desk0_def desk_fresh_def os_league_def os_notepad_def os_no_monitor_def
  os_no_taskbar_def os_no_start_def os_setpos_fails_def os_second_monitor_def
  os_show_fails_def os_notepad_show_fails_def
  world_active_def initial_world_def world_after_game_def world_after_notepad_def started_def
  LEAGUE_WINDOW_TITLE_def TASKBAR_CLASS_def START_BUTTON_CLASS_def

lemmas query_defs = get_foreground_window_def get_window_title_def is_window_minimized_def
  is_league_game_window_def get_monitor_info_def get_monitor_rect_def find_taskbar_def
  find_start_button_def or_None_def taskbar_handles_def

lemma find_taskbar_nonzero: "find_taskbar e = Some h \<Longrightarrow> h \<noteq> 0"
  by (auto simp: find_taskbar_def or_None_def split: if_splits)

lemma find_start_button_nonzero: "find_start_button e = Some h \<Longrightarrow> h \<noteq> 0"
  by (auto simp: find_start_button_def or_None_def split: if_splits option.splits)

lemma find_start_button_None: "find_taskbar e = None \<Longrightarrow> find_start_button e = None"
  by (simp add: find_start_button_def)

lemma win32gui_ShowWindow:
  "win32gui e (ShowWindow h c) w =
     (case raises e (ShowWindow h c) of
        Some msg \<Rightarrow> (Raise (Error msg), w\<lparr>calls := calls w @ [ShowWindow h c]\<rparr>)
      | None \<Rightarrow> (Return (), show_windows c [h] w))"
  by (auto simp: win32gui_def Let_def show_windows_def fun_eq_iff split: option.splits)

lemma show_windows_two:
  "show_windows c [b] (show_windows c [a] w) = show_windows c [a, b] w"
  by (auto simp: show_windows_def fun_eq_iff)

lemma show_windows_Nil: "show_windows c [] w = w"
  by (simp add: show_windows_def)

lemma show_taskbar_cmd: "show_taskbar e = taskbar_cmd e SW_SHOW"
  by (simp add: show_taskbar_def taskbar_cmd_def)

lemma hide_taskbar_cmd: "hide_taskbar e = taskbar_cmd e SW_HIDE"
  by (simp add: hide_taskbar_def taskbar_cmd_def)

text \<open>
  When every \<open>ShowWindow\<close> on the task bar and the Start button succeeds, the command
  returns and has shown or hidden what the lookups found.
\<close>

lemma taskbar_cmd_ok:
  assumes "\<forall>h\<in>set (taskbar_handles e). raises e (ShowWindow h c) = None"
  shows "taskbar_cmd e c w = (Return (), show_windows c (taskbar_handles e) w)"
proof (cases "find_taskbar e")
  case None
  then show ?thesis
    using find_start_button_None [OF None]
    by (simp add: taskbar_cmd_def taskbar_handles_def bind_io_def return_io_def show_windows_Nil)
next
  case (Some tb)
  note tb = this
  have tb0: "tb \<noteq> 0" using find_taskbar_nonzero [OF tb] .
  show ?thesis
  proof (cases "find_start_button e")
    case None
    then show ?thesis using assms tb tb0
      by (auto simp: taskbar_cmd_def taskbar_handles_def win32gui_ShowWindow bind_io_def
           return_io_def split: option.splits)
  next
    case (Some sb)
    have sb0: "sb \<noteq> 0" using find_start_button_nonzero [OF Some] .
    show ?thesis using assms tb tb0 Some sb0
      by (auto simp: taskbar_cmd_def taskbar_handles_def win32gui_ShowWindow bind_io_def
           return_io_def show_windows_two split: option.splits)
  qed
qed

text \<open>Conversely, a command that returned met no failing \<open>ShowWindow\<close>.\<close>

lemma taskbar_cmd_Return:
  assumes "taskbar_cmd e c w = (Return (), w')"
  shows "w' = show_windows c (taskbar_handles e) w"
    and "\<forall>h\<in>set (taskbar_handles e). raises e (ShowWindow h c) = None"
proof -
  have ok: "\<forall>h\<in>set (taskbar_handles e). raises e (ShowWindow h c) = None"
  proof (cases "find_taskbar e")
    case None
    then show ?thesis by (simp add: taskbar_handles_def)
  next
    case (Some tb)
    note tb = this
    have tb0: "tb \<noteq> 0" using find_taskbar_nonzero [OF tb] .
    show ?thesis
    proof (cases "find_start_button e")
      case None
      then show ?thesis using assms tb tb0
        by (auto simp: taskbar_cmd_def taskbar_handles_def win32gui_ShowWindow bind_io_def
             return_io_def split: option.splits)
    next
      case (Some sb)
      have sb0: "sb \<noteq> 0" using find_start_button_nonzero [OF Some] .
      show ?thesis using assms tb tb0 Some sb0
        by (auto simp: taskbar_cmd_def taskbar_handles_def win32gui_ShowWindow bind_io_def
             return_io_def split: option.splits)
    qed
  qed
  then show "\<forall>h\<in>set (taskbar_handles e). raises e (ShowWindow h c) = None" .
  from taskbar_cmd_ok [OF ok, of w] assms
  show "w' = show_windows c (taskbar_handles e) w" by simp
qed

lemma hide_black_window_eq:
  "hide_black_window e h w =
     (Return (), if raises e (ShowWindow h SW_HIDE) = None then show_windows SW_HIDE [h] w
                 else w\<lparr>calls := calls w @ [ShowWindow h SW_HIDE]\<rparr>)"
  by (simp add: hide_black_window_def try_except_pass_def win32gui_ShowWindow split: option.splits)

lemma destroy_black_window_eq:
  "destroy_black_window e h w =
     (Return (), if raises e (DestroyWindow h) = None
                 then w\<lparr>windows := (windows w)(h := (windows w h)\<lparr>alive := False\<rparr>),
                        calls := calls w @ [DestroyWindow h]\<rparr>
                 else w\<lparr>calls := calls w @ [DestroyWindow h]\<rparr>)"
  by (simp add: destroy_black_window_def try_except_pass_def win32gui_def Let_def
        split: option.splits)

lemma if_handle_hide_returns:
  "\<exists>w1. if_handle x (hide_black_window e) w = (Return (), w1)"
proof (cases x)
  case None
  then show ?thesis by (simp add: return_io_def)
next
  case (Some h)
  then show ?thesis by (cases "h = 0") (simp_all add: return_io_def hide_black_window_eq)
qed

subsection \<open>\<open>deactivate_black_bars\<close>, when it returns\<close>

lemma deactivate_Return:
  assumes "deactivate_black_bars e w = (Return (), w')"
  shows "black_window_hwnd w' = black_window_hwnd w"
    and "\<not> black_bars_active w'"
    and "active_window w' = active_window w"
    and "windows w' = (\<lambda>h. if h \<in> set (taskbar_handles e) then (windows w h)\<lparr>visible := True\<rparr>
                          else if hides e w h then (windows w h)\<lparr>visible := False\<rparr>
                          else windows w h)"
    and "stdout w' = stdout w @ [Print ''Black bars deactivated'']"
    and "\<forall>h\<in>set (taskbar_handles e). raises e (ShowWindow h SW_SHOW) = None"
proof -
  obtain w1 where w1: "if_handle (black_window_hwnd w) (hide_black_window e) w = (Return (), w1)"
    using if_handle_hide_returns by blast
  from assms w1 obtain w2 where w2: "taskbar_cmd e SW_SHOW w1 = (Return (), w2)"
    and w': "w' = w2\<lparr>black_bars_active := False,
                      stdout := stdout w2 @ [Print ''Black bars deactivated'']\<rparr>"
    by (cases "taskbar_cmd e SW_SHOW w1")
       (auto simp: deactivate_black_bars_def show_taskbar_cmd bind_io_def print_def
          split: result.splits)
  note tc = taskbar_cmd_Return [OF w2]
  have f1: "black_window_hwnd w1 = black_window_hwnd w" "active_window w1 = active_window w"
    "stdout w1 = stdout w"
    "windows w1 = (\<lambda>h. if hides e w h then (windows w h)\<lparr>visible := False\<rparr> else windows w h)"
    using w1
    by (cases "black_window_hwnd w";
        auto simp: hide_black_window_eq return_io_def show_windows_def hides_def fun_eq_iff
          SW_HIDE_def split: if_splits)+
  show "black_window_hwnd w' = black_window_hwnd w" "\<not> black_bars_active w'"
    "active_window w' = active_window w"
    "stdout w' = stdout w @ [Print ''Black bars deactivated'']"
    using w' tc(1) f1 by (simp_all add: show_windows_def)
  show "windows w' = (\<lambda>h. if h \<in> set (taskbar_handles e) then (windows w h)\<lparr>visible := True\<rparr>
                          else if hides e w h then (windows w h)\<lparr>visible := False\<rparr>
                          else windows w h)"
    using w' tc(1) f1 by (auto simp: show_windows_def fun_eq_iff SW_SHOW_def SW_HIDE_def)
  show "\<forall>h\<in>set (taskbar_handles e). raises e (ShowWindow h SW_SHOW) = None"
    using tc(2) .
qed

lemma deactivate_ok:
  assumes "\<forall>h\<in>set (taskbar_handles e). raises e (ShowWindow h SW_SHOW) = None"
  shows "\<exists>w'. deactivate_black_bars e w = (Return (), w')"
proof -
  obtain w1 where w1: "if_handle (black_window_hwnd w) (hide_black_window e) w = (Return (), w1)"
    using if_handle_hide_returns by blast
  show ?thesis
    using w1 taskbar_cmd_ok [OF assms, of w1]
    by (simp add: deactivate_black_bars_def show_taskbar_cmd bind_io_def print_def)
qed

lemma deactivate_twice:
  assumes "deactivate_black_bars e w = (Return (), w1)"
  shows "\<exists>w2. deactivate_black_bars e w1 = (Return (), w2) \<and> observable w2 = observable w1"
proof -
  note a = deactivate_Return [OF assms]
  from deactivate_ok [OF a(6)] obtain w2 where w2: "deactivate_black_bars e w1 = (Return (), w2)"
    by blast
  note b = deactivate_Return [OF w2]
  have "windows w2 = windows w1"
    unfolding b(4) a(4) by (auto simp: fun_eq_iff hides_def a(1))
  with a b w2 show ?thesis by (simp add: observable_def)
qed

subsection \<open>\<open>cleanup\<close>, when it returns\<close>

lemma taskbar_cmd_creations: "creations (snd (taskbar_cmd e c w)) = creations w"
  by (cases "find_taskbar e"; cases "find_start_button e")
     (auto simp: taskbar_cmd_def bind_io_def return_io_def win32gui_ShowWindow creations_def
        show_windows_def split: option.splits)

lemma cleanup_Return:
  assumes "cleanup e w = (Return (), w')"
  shows "black_window_hwnd w' = (if black_window_hwnd w = Some 0 then Some 0 else None)"
    and "black_bars_active w' = black_bars_active w"
    and "active_window w' = active_window w"
    and "windows w' =
           (\<lambda>h. (if h \<in> set (taskbar_handles e) then (windows w h)\<lparr>visible := True\<rparr>
                  else windows w h)\<lparr>alive := alive (windows w h) \<and> \<not> destroys e w h\<rparr>)"
    and "calls w' = calls w @ cleanup_calls e (black_window_hwnd w)"
    and "stdout w' = stdout w @ [Print ''\<newline>Cleaning up...'', Print ''Cleanup complete'']"
    and "\<forall>h\<in>set (taskbar_handles e). raises e (ShowWindow h SW_SHOW) = None"
proof -
  let ?w0 = "w\<lparr>stdout := stdout w @ [Print ''\<newline>Cleaning up...'']\<rparr>"
  from assms obtain w1 where w1: "taskbar_cmd e SW_SHOW ?w0 = (Return (), w1)"
    by (cases "taskbar_cmd e SW_SHOW ?w0")
       (auto simp: cleanup_def show_taskbar_cmd bind_io_def print_def split: result.splits)
  note tc = taskbar_cmd_Return [OF w1]
  show "\<forall>h\<in>set (taskbar_handles e). raises e (ShowWindow h SW_SHOW) = None" using tc(2) .
  have w': "w' = snd (if_handle (black_window_hwnd w1)
                   (\<lambda>h. bind_io (destroy_black_window e h)
                      (\<lambda>_ w'. (Return (), w'\<lparr>black_window_hwnd := None\<rparr>))) w1)
                 \<lparr>stdout := stdout w @ [Print ''\<newline>Cleaning up...'', Print ''Cleanup complete'']\<rparr>"
    using assms w1 tc(1)
    by (cases "black_window_hwnd w")
       (auto simp: cleanup_def show_taskbar_cmd bind_io_def print_def return_io_def
          destroy_black_window_eq show_windows_def split: result.splits if_splits)
  have h1: "black_window_hwnd w1 = black_window_hwnd w" using tc(1) by (simp add: show_windows_def)
  show "black_window_hwnd w' = (if black_window_hwnd w = Some 0 then Some 0 else None)"
    "black_bars_active w' = black_bars_active w"
    "active_window w' = active_window w"
    "stdout w' = stdout w @ [Print ''\<newline>Cleaning up...'', Print ''Cleanup complete'']"
    unfolding w' h1 using tc(1)
    by (cases "black_window_hwnd w";
        simp add: return_io_def bind_io_def destroy_black_window_eq show_windows_def)+
  show "calls w' = calls w @ cleanup_calls e (black_window_hwnd w)"
    unfolding w' h1 using tc(1)
    by (cases "black_window_hwnd w";
        simp add: return_io_def bind_io_def destroy_black_window_eq show_windows_def
          cleanup_calls_def)
  show "windows w' =
           (\<lambda>h. (if h \<in> set (taskbar_handles e) then (windows w h)\<lparr>visible := True\<rparr>
                  else windows w h)\<lparr>alive := alive (windows w h) \<and> \<not> destroys e w h\<rparr>)"
    unfolding w' h1 using tc(1)
    by (cases "black_window_hwnd w";
        auto simp: return_io_def bind_io_def destroy_black_window_eq show_windows_def
          destroys_def fun_eq_iff SW_SHOW_def SW_HIDE_def)
qed

lemma cleanup_ok:
  assumes "\<forall>h\<in>set (taskbar_handles e). raises e (ShowWindow h SW_SHOW) = None"
  shows "\<exists>w'. cleanup e w = (Return (), w')"
  using taskbar_cmd_ok [OF assms]
  by (cases "black_window_hwnd w")
     (auto simp: cleanup_def show_taskbar_cmd bind_io_def print_def return_io_def
        destroy_black_window_eq show_windows_def)

lemma cleanup_twice:
  assumes "cleanup e w = (Return (), w1)"
  shows "\<exists>w2. cleanup e w1 = (Return (), w2) \<and> observable w2 = observable w1"
proof -
  note a = cleanup_Return [OF assms]
  from cleanup_ok [OF a(7)] obtain w2 where w2: "cleanup e w1 = (Return (), w2)"
    by blast
  note b = cleanup_Return [OF w2]
  have "windows w2 = windows w1"
    unfolding b(4) unfolding a(4) by (auto simp: fun_eq_iff destroys_def a(1))
  with a b w2 show ?thesis by (simp add: observable_def)
qed

section \<open>Deactivation\<close>

text \<open>
  Claim C6. Deactivation is idempotent: from every state, calling
  \<open>deactivate_black_bars\<close> twice in a row ends as calling it once does (the second call
  is not reached when the first raises), and leaves the same observable state: the
  globals, the windows and the input focus. When the call returns, the black bars are
  off, the task bar and the Start button that the lookups found are visible, and the
  overlay on which \<open>ShowWindow\<close> did not fail is hidden.
\<close>

theorem deactivate_black_bars_idempotent:
  "fst (bind_io (deactivate_black_bars e) (\<lambda>_. deactivate_black_bars e) w)
     = fst (deactivate_black_bars e w) \<and>
   observable (snd (bind_io (deactivate_black_bars e) (\<lambda>_. deactivate_black_bars e) w))
     = observable (snd (deactivate_black_bars e w)) \<and>
   (fst (deactivate_black_bars e w) = Return () \<longrightarrow>
      \<not> black_bars_active (snd (deactivate_black_bars e w)) \<and>
      (\<forall>h\<in>set (taskbar_handles e). visible (windows (snd (deactivate_black_bars e w)) h)) \<and>
      (\<forall>h. hides e w h \<and> h \<notin> set (taskbar_handles e) \<longrightarrow>
           \<not> visible (windows (snd (deactivate_black_bars e w)) h)))"
proof (cases "deactivate_black_bars e w")
  case (Pair r w1)
  show ?thesis
  proof (cases r)
    case (Return u)
    with Pair have once: "deactivate_black_bars e w = (Return (), w1)" by simp
    from deactivate_twice [OF once] obtain w2
      where twice: "deactivate_black_bars e w1 = (Return (), w2)"
        and same: "observable w2 = observable w1" by blast
    note a = deactivate_Return [OF once]
    show ?thesis
      using once twice same a(2) by (simp add: bind_io_def a(4))
  next
    case (Raise x)
    with Pair show ?thesis by (simp add: bind_io_def)
  qed
qed

theorem deactivate_black_bars_idempotent_witness:
  "fst (deactivate_black_bars os_notepad world_active) = Return () \<and>
   hides os_notepad world_active 500 \<and> 500 \<notin> set (taskbar_handles os_notepad) \<and>
   10 \<in> set (taskbar_handles os_notepad) \<and>
   \<not> black_bars_active (snd (deactivate_black_bars os_notepad world_active)) \<and>
   visible (windows (snd (deactivate_black_bars os_notepad world_active)) 10) \<and>
   \<not> visible (windows (snd (deactivate_black_bars os_notepad world_active)) 500) \<and>
   observable (snd (bind_io (deactivate_black_bars os_notepad)
                     (\<lambda>_. deactivate_black_bars os_notepad) world_active))
     = observable (snd (deactivate_black_bars os_notepad world_active))"
proof -
  have ok: "\<forall>h\<in>set (taskbar_handles os_notepad). raises os_notepad (ShowWindow h SW_SHOW) = None"
    by (simp add: example_defs)
  from deactivate_ok [OF ok, of world_active]
  have r: "fst (deactivate_black_bars os_notepad world_active) = Return ()" by auto
  have hs: "hides os_notepad world_active 500" "500 \<notin> set (taskbar_handles os_notepad)"
    "10 \<in> set (taskbar_handles os_notepad)"
    by (simp_all add: hides_def query_defs example_defs)
  show ?thesis
    using r hs deactivate_black_bars_idempotent [of os_notepad world_active]
    by blast
qed

section \<open>The overlay window\<close>

text \<open>
  Claim C8. When \<open>SetWindowPos\<close> succeeds, \<open>show_black_window\<close> makes exactly that one
  call: the overlay is then directly behind the League window in the z-order and
  visible, its size and position are what they were, the input focus stays where it was,
  and no other window and no global changes.
\<close>

theorem show_black_window_restacks_only:
  assumes "raises e (SetWindowPos h league_hwnd 0 0 0 0 show_flags) = None"
  shows "\<exists>w'. show_black_window e h league_hwnd w = (Return (), w') \<and>
     calls w' = calls w @ [SetWindowPos h league_hwnd 0 0 0 0 show_flags] \<and>
     insert_after (windows w' h) = Some league_hwnd \<and>
     visible (windows w' h) \<and>
     w_size (windows w' h) = w_size (windows w h) \<and>
     w_pos (windows w' h) = w_pos (windows w h) \<and>
     active_window w' = active_window w \<and>
     alive (windows w' h) = alive (windows w h) \<and>
     (\<forall>h'. h' \<noteq> h \<longrightarrow> windows w' h' = windows w h') \<and>
     black_window_hwnd w' = black_window_hwnd w \<and>
     black_bars_active w' = black_bars_active w \<and>
     stdout w' = stdout w"
  using assms
  by (simp add: show_black_window_def win32gui_def Let_def show_flags_def swp_defs)

theorem show_black_window_restacks_only_witness:
  "raises os_league (SetWindowPos 500 100 0 0 0 0 show_flags) = None \<and>
   (\<exists>w'. show_black_window os_league 500 100 (initial_world desk0 7) = (Return (), w') \<and>
      insert_after (windows w' 500) = Some 100 \<and> visible (windows w' 500) \<and>
      w_size (windows w' 500) = (0, 0) \<and> w_pos (windows w' 500) = (0, 0) \<and>
      active_window w' = 7 \<and> windows w' 10 = desk0 10)"
proof -
  have h: "raises os_league (SetWindowPos 500 100 0 0 0 0 show_flags) = None"
    by (simp add: os_league_def)
  from show_black_window_restacks_only [OF h, of "initial_world desk0 7"]
  obtain w' where "show_black_window os_league 500 100 (initial_world desk0 7) = (Return (), w')"
    "insert_after (windows w' 500) = Some 100" "visible (windows w' 500)"
    "w_size (windows w' 500) = w_size (windows (initial_world desk0 7) 500)"
    "w_pos (windows w' 500) = w_pos (windows (initial_world desk0 7) 500)"
    "active_window w' = active_window (initial_world desk0 7)"
    "\<forall>h'. h' \<noteq> 500 \<longrightarrow> windows w' h' = windows (initial_world desk0 7) h'"
    by blast
  then show ?thesis using h by (auto simp: initial_world_def desk0_def)
qed

section \<open>The task bar\<close>

text \<open>
  Claim C9. Hiding and showing the task bar are best-effort. When the task bar is not
  found, both return at once and change nothing. When the Start button is not found, it
  is skipped and only the task bar is handled. Neither raises as long as \<open>ShowWindow\<close>
  itself does not fail on a window that was found, and showing a task bar that is
  already visible changes nothing that can be observed.
\<close>

theorem taskbar_hide_show_best_effort:
  "(find_taskbar e = None \<longrightarrow>
      hide_taskbar e w = (Return (), w) \<and> show_taskbar e w = (Return (), w)) \<and>
   (find_start_button e = None \<longrightarrow>
      hide_taskbar e w =
        if_handle (find_taskbar e) (\<lambda>taskbar. win32gui e (ShowWindow taskbar SW_HIDE)) w \<and>
      show_taskbar e w =
        if_handle (find_taskbar e) (\<lambda>taskbar. win32gui e (ShowWindow taskbar SW_SHOW)) w) \<and>
   ((\<forall>h\<in>set (taskbar_handles e). raises e (ShowWindow h SW_HIDE) = None) \<longrightarrow>
      fst (hide_taskbar e w) = Return ()) \<and>
   ((\<forall>h\<in>set (taskbar_handles e). raises e (ShowWindow h SW_SHOW) = None) \<longrightarrow>
      fst (show_taskbar e w) = Return () \<and>
      ((\<forall>h\<in>set (taskbar_handles e). visible (windows w h)) \<longrightarrow>
         observable (snd (show_taskbar e w)) = observable w))"
proof (intro conjI impI)
  assume "find_taskbar e = None"
  then show "hide_taskbar e w = (Return (), w)" "show_taskbar e w = (Return (), w)"
    by (simp_all add: hide_taskbar_def show_taskbar_def find_start_button_def bind_io_def
          return_io_def)
next
  assume a: "find_start_button e = None"
  have "\<And>m. bind_io m (\<lambda>_. return_io ()) w = m w"
  proof -
    fix m :: "unit io"
    show "bind_io m (\<lambda>_. return_io ()) w = m w"
      by (cases "m w") (simp add: bind_io_def return_io_def split: result.splits)
  qed
  with a show "hide_taskbar e w =
        if_handle (find_taskbar e) (\<lambda>taskbar. win32gui e (ShowWindow taskbar SW_HIDE)) w"
    "show_taskbar e w =
        if_handle (find_taskbar e) (\<lambda>taskbar. win32gui e (ShowWindow taskbar SW_SHOW)) w"
    by (simp_all add: hide_taskbar_def show_taskbar_def)
next
  assume "\<forall>h\<in>set (taskbar_handles e). raises e (ShowWindow h SW_HIDE) = None"
  from taskbar_cmd_ok [OF this, of w] show "fst (hide_taskbar e w) = Return ()"
    by (simp add: hide_taskbar_cmd)
next
  assume ok: "\<forall>h\<in>set (taskbar_handles e). raises e (ShowWindow h SW_SHOW) = None"
  from taskbar_cmd_ok [OF ok, of w] show "fst (show_taskbar e w) = Return ()"
    by (simp add: show_taskbar_cmd)
  assume "\<forall>h\<in>set (taskbar_handles e). visible (windows w h)"
  with taskbar_cmd_ok [OF ok, of w] show "observable (snd (show_taskbar e w)) = observable w"
    by (auto simp: show_taskbar_cmd observable_def show_windows_def fun_eq_iff SW_SHOW_def
          SW_HIDE_def)
qed

theorem taskbar_hide_show_best_effort_witness:
  "find_taskbar os_no_taskbar = None \<and>
   hide_taskbar os_no_taskbar world_active = (Return (), world_active) \<and>
   show_taskbar os_no_taskbar world_active = (Return (), world_active) \<and>
   find_start_button os_no_start = None \<and>
   taskbar_handles os_no_start = [10] \<and>
   raises os_no_start (ShowWindow 10 SW_HIDE) = None \<and>
   raises os_no_start (ShowWindow 10 SW_SHOW) = None \<and>
   visible (windows (initial_world desk0 0) 10) \<and>
   fst (hide_taskbar os_no_start (initial_world desk0 0)) = Return () \<and>
   fst (show_taskbar os_no_start (initial_world desk0 0)) = Return () \<and>
   observable (snd (show_taskbar os_no_start (initial_world desk0 0)))
     = observable (initial_world desk0 0)"
proof -
  have a: "find_taskbar os_no_taskbar = None" "find_start_button os_no_start = None"
    "taskbar_handles os_no_start = [10]"
    "raises os_no_start (ShowWindow 10 SW_HIDE) = None"
    "raises os_no_start (ShowWindow 10 SW_SHOW) = None"
    "visible (windows (initial_world desk0 0) 10)"
    by (simp_all add: query_defs example_defs)
  have b: "\<forall>h\<in>set (taskbar_handles os_no_start). raises os_no_start (ShowWindow h SW_HIDE) = None"
    "\<forall>h\<in>set (taskbar_handles os_no_start). raises os_no_start (ShowWindow h SW_SHOW) = None"
    "\<forall>h\<in>set (taskbar_handles os_no_start). visible (windows (initial_world desk0 0) h)"
    using a by simp_all
  show ?thesis
    using a b taskbar_hide_show_best_effort [of os_no_taskbar world_active]
      taskbar_hide_show_best_effort [of os_no_start "initial_world desk0 0"]
    by blast
qed

section \<open>Activation without a monitor\<close>

text \<open>
  Claim C10. When \<open>get_monitor_rect\<close> returns \<^verbatim>\<open>None\<close>, \<open>activate_black_bars\<close> prints the
  warning and returns, whether or not the overlay exists already: the overlay is not
  shown, the task bar is not hidden, the flag is not set, no native call is made, and
  both globals and the desktop are exactly what they were.
\<close>

theorem activate_without_monitor_rect_changes_nothing:
  assumes "get_monitor_rect e league_hwnd = None"
  shows "activate_black_bars e league_hwnd w =
     (Return (), w\<lparr>stdout := stdout w @
        [Print ''Warning: Could not determine monitor for League window'']\<rparr>)"
  using assms by (simp add: activate_black_bars_def print_def)

theorem activate_without_monitor_rect_witness:
  "get_monitor_rect os_no_monitor 100 = None \<and>
   black_window_hwnd world_active = Some 500 \<and>
   activate_black_bars os_no_monitor 100 world_active =
     (Return (), world_active\<lparr>stdout := stdout world_active @
        [Print ''Warning: Could not determine monitor for League window'']\<rparr>)"
proof -
  have h: "get_monitor_rect os_no_monitor 100 = None"
    by (simp add: query_defs example_defs)
  show ?thesis
    using h activate_without_monitor_rect_changes_nothing [OF h, of world_active]
    by (simp add: world_active_def)
qed

subsection \<open>Creation, restacking, activation and one pass of the loop\<close>

lemma create_black_window_eq:
  "create_black_window e mr w =
     (case raises e (create_call mr) of
        Some msg \<Rightarrow>
          (Raise (Error msg),
           w\<lparr>calls := calls w @ [RegisterClass ''LeagueBlackBarsWindow'', create_call mr]\<rparr>)
      | None \<Rightarrow>
          (Return (NewWindow e),
           w\<lparr>windows := (windows w)(NewWindow e := new_overlay mr),
             calls := calls w @ [RegisterClass ''LeagueBlackBarsWindow'', create_call mr,
                                 SetLayeredWindowAttributes (NewWindow e) 0 255 LWA_ALPHA]\<rparr>))"
  by (cases mr)
     (simp add: create_black_window_def create_window_class_def bind_io_def return_io_def
        try_except_pass_def win32gui_def ctypes_user32_def Let_def create_call_def
        new_overlay_def overlay_ex_style_def has_flag_def WS_POPUP_def WS_VISIBLE_def
        LWA_ALPHA_def split: option.splits)

lemma show_black_window_eq:
  "show_black_window e h lg w =
     (case raises e (SetWindowPos h lg 0 0 0 0 show_flags) of
        Some msg \<Rightarrow>
          (Raise (Error msg), w\<lparr>calls := calls w @ [SetWindowPos h lg 0 0 0 0 show_flags]\<rparr>)
      | None \<Rightarrow>
          (Return (),
           w\<lparr>windows := (windows w)(h := (windows w h)\<lparr>visible := True, insert_after := Some lg\<rparr>),
             calls := calls w @ [SetWindowPos h lg 0 0 0 0 show_flags]\<rparr>))"
  by (simp add: show_black_window_def win32gui_def Let_def show_flags_def swp_defs
        split: option.splits)

lemma activate_Return:
  assumes act: "activate_black_bars e lg w = (Return (), w')"
    and mon: "get_monitor_rect e lg = Some mr"
  shows "black_window_hwnd w' = Some (overlay_of e w)"
    and "black_bars_active w'"
    and "active_window w' = active_window w"
    and "windows w' =
           (\<lambda>h. if h \<in> set (taskbar_handles e) then (restacked e lg mr w h)\<lparr>visible := False\<rparr>
                 else restacked e lg mr w h)"
    and "creations w' = creations w + (if black_window_hwnd w = None then 1 else 0)"
    and "stdout w' = stdout w @ [PrintActivated mr]"
proof -
  have all: "black_window_hwnd w' = Some (overlay_of e w) \<and> black_bars_active w' \<and>
    active_window w' = active_window w \<and>
    windows w' =
           (\<lambda>h. if h \<in> set (taskbar_handles e) then (restacked e lg mr w h)\<lparr>visible := False\<rparr>
                 else restacked e lg mr w h) \<and>
    creations w' = creations w + (if black_window_hwnd w = None then 1 else 0) \<and>
    stdout w' = stdout w @ [PrintActivated mr]"
  proof (cases "black_window_hwnd w")
    case None
    from act mon None obtain w2 where
      w2: "taskbar_cmd e SW_HIDE
         (w\<lparr>black_window_hwnd := Some (NewWindow e),
            windows := (windows w)(NewWindow e := (new_overlay mr)\<lparr>visible := True, insert_after := Some lg\<rparr>),
            calls := calls w @ [RegisterClass ''LeagueBlackBarsWindow'', create_call mr,
                                 SetLayeredWindowAttributes (NewWindow e) 0 255 LWA_ALPHA,
                                 SetWindowPos (NewWindow e) lg 0 0 0 0 show_flags]\<rparr>) = (Return (), w2)"
      and w': "w' = w2\<lparr>black_bars_active := True, stdout := stdout w2 @ [PrintActivated mr]\<rparr>"
      by (auto simp: activate_black_bars_def bind_io_def create_black_window_eq
            show_black_window_eq hide_taskbar_cmd print_def
            split: option.splits result.splits prod.splits)
    from taskbar_cmd_Return(1) [OF w2] w' None show ?thesis
      by (auto simp: show_windows_def overlay_of_def restacked_def creations_def create_call_def
            fun_eq_iff SW_HIDE_def split: prod.splits)
  next
    case (Some x)
    from act mon Some obtain w2 where
      w2: "taskbar_cmd e SW_HIDE
         (w\<lparr>windows := (windows w)(x := (windows w x)\<lparr>visible := True, insert_after := Some lg\<rparr>),
            calls := calls w @ [SetWindowPos x lg 0 0 0 0 show_flags]\<rparr>) = (Return (), w2)"
      and w': "w' = w2\<lparr>black_bars_active := True, stdout := stdout w2 @ [PrintActivated mr]\<rparr>"
      by (auto simp: activate_black_bars_def bind_io_def
            show_black_window_eq hide_taskbar_cmd print_def
            split: option.splits result.splits prod.splits)
    from taskbar_cmd_Return(1) [OF w2] w' Some show ?thesis
      by (auto simp: show_windows_def overlay_of_def restacked_def creations_def fun_eq_iff
            SW_HIDE_def)
  qed
  then show "black_window_hwnd w' = Some (overlay_of e w)"
    and "black_bars_active w'"
    and "active_window w' = active_window w"
    and "windows w' =
           (\<lambda>h. if h \<in> set (taskbar_handles e) then (restacked e lg mr w h)\<lparr>visible := False\<rparr>
                 else restacked e lg mr w h)"
    and "creations w' = creations w + (if black_window_hwnd w = None then 1 else 0)"
    and "stdout w' = stdout w @ [PrintActivated mr]"
    by simp_all
qed

lemma activate_ok:
  assumes mon: "get_monitor_rect e lg = Some mr"
    and ok: "\<forall>c. raises e c = None"
  shows "\<exists>w'. activate_black_bars e lg w = (Return (), w')"
proof -
  have tb: "\<forall>h\<in>set (taskbar_handles e). raises e (ShowWindow h SW_HIDE) = None"
    using ok by simp
  show ?thesis
    using mon ok
    by (cases "black_window_hwnd w")
       (simp_all add: activate_black_bars_def bind_io_def create_black_window_eq
          show_black_window_eq hide_taskbar_cmd print_def taskbar_cmd_ok [OF tb])
qed

lemma tick_cases:
  "tick e w =
     (if league_in_front e
      then (if black_bars_active w then (Return (), w)
            else activate_black_bars e (get_foreground_window e) w)
      else (if black_bars_active w then deactivate_black_bars e w else (Return (), w)))"
  by (simp add: tick_def league_in_front_def Let_def)

lemma tick_flag:
  assumes "tick e w = (Return (), w')"
  shows "black_bars_active w' \<longleftrightarrow>
     league_in_front e \<and>
     (black_bars_active w \<or> get_monitor_rect e (get_foreground_window e) \<noteq> None)"
proof (cases "league_in_front e")
  case False
  with assms deactivate_Return(2) [of e w w'] show ?thesis
    by (auto simp: tick_cases split: if_splits)
next
  case True
  show ?thesis
  proof (cases "black_bars_active w")
    case True
    with assms \<open>league_in_front e\<close> show ?thesis by (simp add: tick_cases)
  next
    case False
    note inactive = this
    show ?thesis
    proof (cases "get_monitor_rect e (get_foreground_window e)")
      case None
      with assms True inactive show ?thesis
        by (auto simp: tick_cases activate_black_bars_def print_def)
    next
      case (Some mr)
      from assms True inactive have "activate_black_bars e (get_foreground_window e) w = (Return (), w')"
        by (simp add: tick_cases)
      from activate_Return(2) [OF this Some] True Some show ?thesis by simp
    qed
  qed
qed

lemma polling_loop_snoc:
  "polling_loop (es @ [ev]) w =
     (case polling_loop es w of
        (None, w1) \<Rightarrow> polling_loop [ev] w1
      | (Some x, w1) \<Rightarrow> (Some x, w1))"
proof (induction es arbitrary: w)
  case Nil
  then show ?case by (cases "polling_loop [ev] w") simp
next
  case (Cons a es)
  show ?case
  proof (cases a)
    case (Poll e)
    then show ?thesis using Cons.IH
      by (cases "tick e w") (auto split: result.splits)
  next
    case (Signal e)
    then show ?thesis using Cons.IH
      by (cases "signal_handler e w") (auto split: result.splits)
  qed
qed

lemmas run_defs = tick_def activate_black_bars_def deactivate_black_bars_def cleanup_def
  signal_handler_def create_black_window_def create_window_class_def show_black_window_def
  hide_black_window_def destroy_black_window_def hide_taskbar_def show_taskbar_def
  bind_io_def return_io_def print_def try_except_pass_def win32gui_def ctypes_user32_def
  Let_def SW_HIDE_def SW_SHOW_def WS_POPUP_def WS_VISIBLE_def LWA_ALPHA_def

section \<open>The flag after each pass of the loop\<close>

text \<open>
  Claim C1, as stated: after each pass the flag \<open>black_bars_active\<close> equals
  ``the foreground window is the game window and is not minimized'' on that pass's
  sample. It fails on the first pass already when the monitor of the game window cannot
  be determined: the pass completes, the game window is in front and not minimized, and
  the flag stays off.
\<close>

theorem flag_differs_from_sample_without_monitor:
  "fst (polling_loop [Poll os_no_monitor] (initial_world desk0 0)) = None \<and>
   is_league_game_window os_no_monitor (get_foreground_window os_no_monitor) \<and>
   \<not> is_window_minimized os_no_monitor (get_foreground_window os_no_monitor) \<and>
   \<not> black_bars_active (snd (polling_loop [Poll os_no_monitor] (initial_world desk0 0)))"
  by (simp add: run_defs query_defs example_defs)

text \<open>
  Claim C1, amended: for every sequence of passes that the loop completes, from every
  state, the flag after the last pass is on exactly when, on that pass's sample, the
  foreground window is the game window, is not minimized, and the flag was on before the
  pass or the monitor lookup succeeds. So where the monitor lookup succeeds, the flag
  equals ``is target and not minimized'' on that pass's sample.
\<close>

theorem flag_after_each_pass:
  assumes "polling_loop (es @ [Poll e]) w = (None, w')"
  shows "\<exists>w1. polling_loop es w = (None, w1) \<and> tick e w1 = (Return (), w') \<and>
     (black_bars_active w' \<longleftrightarrow>
        is_league_game_window e (get_foreground_window e) \<and>
        \<not> is_window_minimized e (get_foreground_window e) \<and>
        (black_bars_active w1 \<or> get_monitor_rect e (get_foreground_window e) \<noteq> None)) \<and>
     (get_monitor_rect e (get_foreground_window e) \<noteq> None \<longrightarrow>
        (black_bars_active w' \<longleftrightarrow>
           is_league_game_window e (get_foreground_window e) \<and>
           \<not> is_window_minimized e (get_foreground_window e)))"
proof -
  from assms obtain w1 where run: "polling_loop es w = (None, w1)"
    and last: "polling_loop [Poll e] w1 = (None, w')"
    by (cases "polling_loop es w") (auto simp: polling_loop_snoc split: option.splits)
  from last have t: "tick e w1 = (Return (), w')"
    by (cases "tick e w1") (auto split: result.splits)
  from tick_flag [OF t] run t show ?thesis
    by (auto simp: league_in_front_def)
qed

theorem flag_after_each_pass_witness:
  "polling_loop ([Poll os_league] @ [Poll os_notepad]) (initial_world desk0 0) =
     (None, snd (polling_loop [Poll os_league, Poll os_notepad] (initial_world desk0 0))) \<and>
   get_monitor_rect os_notepad (get_foreground_window os_notepad) \<noteq> None \<and>
   \<not> is_league_game_window os_notepad (get_foreground_window os_notepad) \<and>
   \<not> black_bars_active (snd (polling_loop [Poll os_league, Poll os_notepad]
                                (initial_world desk0 0)))"
proof -
  have run: "polling_loop ([Poll os_league] @ [Poll os_notepad]) (initial_world desk0 0) =
     (None, snd (polling_loop [Poll os_league, Poll os_notepad] (initial_world desk0 0)))"
    by (simp add: run_defs query_defs example_defs swp_defs)
  have h: "get_monitor_rect os_notepad (get_foreground_window os_notepad) \<noteq> None"
    "\<not> is_league_game_window os_notepad (get_foreground_window os_notepad)"
    by (simp_all add: query_defs example_defs)
  from flag_after_each_pass [OF run] h run show ?thesis by blast
qed

section \<open>A pass on which the monitor cannot be determined\<close>

text \<open>
  Claim C4. While the black bars are off, a pass on which the game window is in front
  and not minimized but its monitor cannot be determined completes and changes nothing
  but the output, where the warning is appended: the flag stays off, no window is
  created, the task bar is not hidden, no native call is made. The next pass on which
  the game window is in front attempts the activation again, and it succeeds when the
  monitor is found and no native call fails.
\<close>

theorem pass_without_monitor_rect:
  assumes "\<not> black_bars_active w"
    and "is_league_game_window e (get_foreground_window e)"
    and "\<not> is_window_minimized e (get_foreground_window e)"
    and "get_monitor_rect e (get_foreground_window e) = None"
  shows "tick e w =
     (Return (), w\<lparr>stdout := stdout w @
        [Print ''Warning: Could not determine monitor for League window'']\<rparr>) \<and>
     (\<forall>e'. is_league_game_window e' (get_foreground_window e') \<and>
           \<not> is_window_minimized e' (get_foreground_window e') \<longrightarrow>
        tick e' (snd (tick e w)) =
          activate_black_bars e' (get_foreground_window e') (snd (tick e w)) \<and>
        (get_monitor_rect e' (get_foreground_window e') \<noteq> None \<and> (\<forall>c. raises e' c = None) \<longrightarrow>
           fst (tick e' (snd (tick e w))) = Return () \<and>
           black_bars_active (snd (tick e' (snd (tick e w))))))"
proof -
  let ?w1 = "w\<lparr>stdout := stdout w @
        [Print ''Warning: Could not determine monitor for League window'']\<rparr>"
  have first: "tick e w = (Return (), ?w1)"
    using assms by (simp add: tick_cases league_in_front_def activate_black_bars_def print_def)
  have retry: "tick e' ?w1 = activate_black_bars e' (get_foreground_window e') ?w1"
    if "is_league_game_window e' (get_foreground_window e') \<and>
        \<not> is_window_minimized e' (get_foreground_window e')" for e'
    using that assms(1) by (simp add: tick_cases league_in_front_def)
  have success: "fst (tick e' ?w1) = Return () \<and> black_bars_active (snd (tick e' ?w1))"
    if front: "is_league_game_window e' (get_foreground_window e') \<and>
        \<not> is_window_minimized e' (get_foreground_window e')"
      and ok: "get_monitor_rect e' (get_foreground_window e') \<noteq> None \<and> (\<forall>c. raises e' c = None)"
    for e'
  proof -
    from ok obtain mr where mr: "get_monitor_rect e' (get_foreground_window e') = Some mr"
      by auto
    from activate_ok [OF mr, of ?w1] ok obtain w2
      where w2: "activate_black_bars e' (get_foreground_window e') ?w1 = (Return (), w2)"
      by blast
    from activate_Return(2) [OF w2 mr] w2 retry [OF front] show ?thesis by simp
  qed
  show ?thesis using first retry success by simp
qed

theorem pass_without_monitor_rect_witness:
  "\<not> black_bars_active (initial_world desk0 0) \<and>
   is_league_game_window os_no_monitor (get_foreground_window os_no_monitor) \<and>
   \<not> is_window_minimized os_no_monitor (get_foreground_window os_no_monitor) \<and>
   get_monitor_rect os_no_monitor (get_foreground_window os_no_monitor) = None \<and>
   is_league_game_window os_league (get_foreground_window os_league) \<and>
   \<not> is_window_minimized os_league (get_foreground_window os_league) \<and>
   get_monitor_rect os_league (get_foreground_window os_league) \<noteq> None \<and>
   (\<forall>c. raises os_league c = None) \<and>
   tick os_no_monitor (initial_world desk0 0) =
     (Return (), (initial_world desk0 0)\<lparr>stdout :=
        [Print ''Warning: Could not determine monitor for League window'']\<rparr>) \<and>
   black_bars_active (snd (tick os_league (snd (tick os_no_monitor (initial_world desk0 0)))))"
proof -
  have a: "\<not> black_bars_active (initial_world desk0 0)"
    "is_league_game_window os_no_monitor (get_foreground_window os_no_monitor)"
    "\<not> is_window_minimized os_no_monitor (get_foreground_window os_no_monitor)"
    "get_monitor_rect os_no_monitor (get_foreground_window os_no_monitor) = None"
    by (simp_all add: query_defs example_defs)
  have b: "is_league_game_window os_league (get_foreground_window os_league)"
    "\<not> is_window_minimized os_league (get_foreground_window os_league)"
    "get_monitor_rect os_league (get_foreground_window os_league) \<noteq> None"
    "\<forall>c. raises os_league c = None"
    by (simp_all add: query_defs example_defs)
  have c: "stdout (initial_world desk0 0) = []" by (simp add: initial_world_def)
  from pass_without_monitor_rect [OF a] a b c show ?thesis by auto
qed

subsection \<open>What a statement keeps, however it ends\<close>

lemma keepsD: "keeps g m \<Longrightarrow> g (snd (m w)) = g w"
  by (simp add: keeps_def)

lemma keeps_return: "keeps g (return_io a)"
  by (simp add: keeps_def return_io_def)

lemma keeps_bind:
  assumes "keeps g m" and "\<And>a. keeps g (f a)"
  shows "keeps g (bind_io m f)"
  unfolding keeps_def
proof
  fix w
  show "g (snd (bind_io m f w)) = g w"
  proof (cases "m w")
    case (Pair r w1)
    with keepsD [OF assms(1), of w] have w1: "g w1 = g w" by simp
    show ?thesis
    proof (cases r)
      case (Return a)
      with Pair w1 keepsD [OF assms(2), of a w1] show ?thesis by (simp add: bind_io_def)
    next
      case (Raise x)
      with Pair w1 show ?thesis by (simp add: bind_io_def)
    qed
  qed
qed

lemma keeps_try_except_pass:
  assumes "keeps g m"
  shows "keeps g (try_except_pass m)"
  unfolding keeps_def
proof
  fix w
  from keepsD [OF assms, of w] show "g (snd (try_except_pass m w)) = g w"
    by (cases "m w") (auto simp: try_except_pass_def split: result.splits exn.splits)
qed

lemma keeps_if_handle: "(\<And>h. keeps g (f h)) \<Longrightarrow> keeps g (if_handle x f)"
  by (cases x) (simp_all add: keeps_return)

lemma keeps_dep: "(\<And>x. keeps g (f x)) \<Longrightarrow> keeps g (\<lambda>w. f (sel w) w)"
  by (simp add: keeps_def)

lemma keeps_core_print: "keeps core (print x)"
  by (simp add: keeps_def print_def core_def creations_def)

lemma keeps_core_ShowWindow: "keeps core (win32gui e (ShowWindow h c))"
  by (auto simp: keeps_def win32gui_def Let_def core_def creations_def fun_eq_iff
        split: option.splits)

lemma keeps_core_SetWindowPos: "keeps core (win32gui e (SetWindowPos h a x y cx cy fl))"
  by (auto simp: keeps_def win32gui_def Let_def core_def creations_def fun_eq_iff
        split: option.splits)

lemma keeps_core_flag: "keeps core (\<lambda>w. (Return (), w\<lparr>black_bars_active := b\<rparr>))"
  by (simp add: keeps_def core_def creations_def)

lemma keeps_core_taskbar_cmd: "keeps core (taskbar_cmd e c)"
  unfolding taskbar_cmd_def
  by (intro keeps_bind keeps_if_handle keeps_core_ShowWindow)

lemma keeps_core_show_black_window:
  "keeps core (\<lambda>w. show_black_window e (sel w) lg w)"
  unfolding show_black_window_def by (rule keeps_dep) (rule keeps_core_SetWindowPos)

lemma keeps_core_hide_overlay:
  "keeps core (\<lambda>w. if_handle (black_window_hwnd w) (hide_black_window e) w)"
  unfolding hide_black_window_def
  by (rule keeps_dep) (intro keeps_if_handle keeps_try_except_pass keeps_core_ShowWindow)

lemma keeps_core_deactivate: "keeps core (deactivate_black_bars e)"
  unfolding deactivate_black_bars_def show_taskbar_cmd
  by (intro keeps_bind keeps_core_hide_overlay keeps_core_taskbar_cmd keeps_core_flag
        keeps_core_print)

text \<open>The part of \<open>activate_black_bars\<close> that follows the creation of the overlay.\<close>

lemma keeps_core_restack:
  "keeps core
     (bind_io (\<lambda>w. show_black_window e (the (black_window_hwnd w)) lg w)
        (\<lambda>_. bind_io (hide_taskbar e)
           (\<lambda>_. bind_io (\<lambda>w. (Return (), w\<lparr>black_bars_active := True\<rparr>))
              (\<lambda>_. print (PrintActivated mr)))))"
  unfolding hide_taskbar_cmd
  by (intro keeps_bind keeps_core_show_black_window keeps_core_taskbar_cmd keeps_core_flag
        keeps_core_print)

lemma keeps_creations_DestroyWindow: "keeps creations (win32gui e (DestroyWindow h))"
  by (simp add: keeps_def win32gui_def Let_def creations_def split: option.splits)

lemma keeps_creations_of_core: "keeps core m \<Longrightarrow> keeps creations m"
  by (simp add: keeps_def core_def)

lemma keeps_creations_destroy_overlay:
  "keeps creations
     (\<lambda>w. if_handle (black_window_hwnd w)
        (\<lambda>h. bind_io (destroy_black_window e h)
           (\<lambda>_ w'. (Return (), w'\<lparr>black_window_hwnd := None\<rparr>))) w)"
proof -
  have clear: "keeps creations (\<lambda>w'. (Return (), w'\<lparr>black_window_hwnd := None\<rparr>))"
    by (simp add: keeps_def creations_def)
  have "keeps creations
     (if_handle x (\<lambda>h. bind_io (destroy_black_window e h)
           (\<lambda>_ w'. (Return (), w'\<lparr>black_window_hwnd := None\<rparr>))))" for x
    unfolding destroy_black_window_def
    by (intro keeps_if_handle keeps_bind keeps_try_except_pass keeps_creations_DestroyWindow
          clear)
  then show ?thesis by (simp add: keeps_def)
qed

lemma keeps_creations_cleanup: "keeps creations (cleanup e)"
  unfolding cleanup_def show_taskbar_cmd
  by (intro keeps_bind keeps_creations_destroy_overlay
        keeps_creations_of_core [OF keeps_core_taskbar_cmd]
        keeps_creations_of_core [OF keeps_core_print])

lemma keeps_creations_signal_handler: "keeps creations (signal_handler e)"
  unfolding signal_handler_def
proof (rule keeps_bind)
  show "keeps creations (cleanup e)" by (rule keeps_creations_cleanup)
  show "keeps creations (\<lambda>w. (Raise (SystemExit 0), w))" for a :: unit
    by (simp add: keeps_def)
qed

text \<open>
  However \<open>activate_black_bars\<close> ends, either nothing of the core has changed, or there
  was no overlay and one \<open>CreateWindowEx\<close> has been made: it failed and nothing else
  changed, or the script now holds the new window.
\<close>

lemma activate_any:
  "core (snd (activate_black_bars e lg w)) = core w \<or>
   black_window_hwnd w = None \<and>
   creations (snd (activate_black_bars e lg w)) = creations w + 1 \<and>
   (black_window_hwnd (snd (activate_black_bars e lg w)) = None \<and>
      (\<forall>h. alive (windows (snd (activate_black_bars e lg w)) h) = alive (windows w h)) \<or>
    black_window_hwnd (snd (activate_black_bars e lg w)) = Some (NewWindow e) \<and>
      (\<forall>h. alive (windows (snd (activate_black_bars e lg w)) h)
            = (h = NewWindow e \<or> alive (windows w h))))"
proof (cases "get_monitor_rect e lg")
  case None
  then show ?thesis by (simp add: activate_black_bars_def print_def core_def creations_def)
next
  case (Some mr)
  let ?rest = "bind_io (\<lambda>w. show_black_window e (the (black_window_hwnd w)) lg w)
        (\<lambda>_. bind_io (hide_taskbar e)
           (\<lambda>_. bind_io (\<lambda>w. (Return (), w\<lparr>black_bars_active := True\<rparr>))
              (\<lambda>_. print (PrintActivated mr))))"
  note rest = keepsD [OF keeps_core_restack, of e lg mr]
  show ?thesis
  proof (cases "black_window_hwnd w")
    case (Some x)
    with \<open>get_monitor_rect e lg = Some mr\<close>
    have "activate_black_bars e lg w = ?rest w"
      by (simp add: activate_black_bars_def bind_io_def)
    with rest [of w] show ?thesis by simp
  next
    case None
    show ?thesis
    proof (cases "raises e (create_call mr)")
      case (Some msg)
      with None \<open>get_monitor_rect e lg = Some mr\<close> show ?thesis
        by (simp add: activate_black_bars_def bind_io_def create_black_window_eq creations_def
              create_call_def split: prod.splits)
    next
      case ok: None
      let ?w1 = "w\<lparr>windows := (windows w)(NewWindow e := new_overlay mr),
             calls := calls w @ [RegisterClass ''LeagueBlackBarsWindow'', create_call mr,
                                 SetLayeredWindowAttributes (NewWindow e) 0 255 LWA_ALPHA],
             black_window_hwnd := Some (NewWindow e)\<rparr>"
      from None ok \<open>get_monitor_rect e lg = Some mr\<close>
      have "activate_black_bars e lg w = ?rest ?w1"
        by (simp add: activate_black_bars_def bind_io_def create_black_window_eq)
      with rest [of ?w1] None show ?thesis
        by (auto simp: core_def creations_def create_call_def new_overlay_def fun_eq_iff
              split: prod.splits)
    qed
  qed
qed

subsection \<open>The handle and the number of creations along the loop\<close>

lemma tick_Return_handle:
  assumes "tick e w = (Return (), w')"
  shows "(\<forall>h. black_window_hwnd w = Some h \<longrightarrow>
            black_window_hwnd w' = Some h \<and> creations w' = creations w) \<and>
         (black_window_hwnd w = None \<longrightarrow>
            black_window_hwnd w' = None \<and> creations w' = creations w \<and>
            (black_bars_active w' \<longrightarrow> black_bars_active w) \<or>
            black_window_hwnd w' = Some (NewWindow e) \<and> creations w' = creations w + 1 \<and>
            black_bars_active w' \<and> \<not> black_bars_active w)"
proof (cases "league_in_front e \<and> \<not> black_bars_active w")
  case False
  with assms keepsD [OF keeps_core_deactivate, of e w] deactivate_Return(2) [of e w w']
  show ?thesis
    by (auto simp: tick_cases core_def split: if_splits)
next
  case True
  then have act: "activate_black_bars e (get_foreground_window e) w = (Return (), w')"
    using assms by (simp add: tick_cases)
  show ?thesis
  proof (cases "get_monitor_rect e (get_foreground_window e)")
    case None
    with act show ?thesis by (auto simp: activate_black_bars_def print_def creations_def)
  next
    case (Some mr)
    from activate_Return [OF act Some] True show ?thesis
      by (auto simp: overlay_of_def)
  qed
qed

lemma tick_creations_le:
  "creations (snd (tick e w)) \<le> creations w + (if black_window_hwnd w = None then 1 else 0)"
  using activate_any [of e "get_foreground_window e" w] keepsD [OF keeps_core_deactivate, of e w]
  by (auto simp: tick_cases core_def)

lemma signal_handler_raises: "fst (signal_handler e w) \<noteq> Return ()"
  by (cases "cleanup e w") (auto simp: signal_handler_def bind_io_def split: result.splits)

lemma loop_stable:
  "black_window_hwnd w = Some h \<Longrightarrow> polling_loop es w = (None, w') \<Longrightarrow>
   black_window_hwnd w' = Some h \<and> creations w' = creations w"
proof (induction es arbitrary: w)
  case Nil
  then show ?case by simp
next
  case (Cons ev es)
  show ?case
  proof (cases ev)
    case (Poll e)
    with Cons.prems(2) obtain w1 where t: "tick e w = (Return (), w1)"
      and rest: "polling_loop es w1 = (None, w')"
      by (cases "tick e w") (auto split: result.splits)
    from tick_Return_handle [OF t] Cons.prems(1)
    have "black_window_hwnd w1 = Some h" "creations w1 = creations w" by auto
    with Cons.IH [OF _ rest] show ?thesis by simp
  next
    case (Signal e)
    with Cons.prems(2) signal_handler_raises [of e w] show ?thesis
      by (cases "signal_handler e w") (auto split: result.splits)
  qed
qed

lemma loop_handle_counts:
  "handle_counts w \<Longrightarrow> polling_loop es w = (None, w') \<Longrightarrow> handle_counts w'"
proof (induction es arbitrary: w)
  case Nil
  then show ?case by simp
next
  case (Cons ev es)
  show ?case
  proof (cases ev)
    case (Poll e)
    with Cons.prems(2) obtain w1 where t: "tick e w = (Return (), w1)"
      and rest: "polling_loop es w1 = (None, w')"
      by (cases "tick e w") (auto split: result.splits)
    from tick_Return_handle [OF t] Cons.prems(1) have "handle_counts w1"
      by (cases "black_window_hwnd w") (auto simp: handle_counts_def)
    then show ?thesis using rest by (rule Cons.IH)
  next
    case (Signal e)
    with Cons.prems(2) signal_handler_raises [of e w] show ?thesis
      by (cases "signal_handler e w") (auto split: result.splits)
  qed
qed

lemma loop_creations_le:
  "handle_counts w \<Longrightarrow> creations (snd (polling_loop es w)) \<le> 1"
proof (induction es arbitrary: w)
  case Nil
  then show ?case by (simp add: handle_counts_def split: if_splits)
next
  case (Cons ev es)
  show ?case
  proof (cases ev)
    case (Poll e)
    show ?thesis
    proof (cases "tick e w")
      case (Pair r w1)
      show ?thesis
      proof (cases r)
        case (Return u)
        with Pair have t: "tick e w = (Return (), w1)" by simp
        from tick_Return_handle [OF t] Cons.prems have "handle_counts w1"
          by (cases "black_window_hwnd w") (auto simp: handle_counts_def)
        from Cons.IH [OF this] Poll t show ?thesis by simp
      next
        case (Raise x)
        with Pair Poll tick_creations_le [of e w] Cons.prems show ?thesis
          by (auto simp: handle_counts_def split: if_splits)
      qed
    qed
  next
    case (Signal e)
    with signal_handler_raises [of e w] keepsD [OF keeps_creations_signal_handler, of e w]
      Cons.prems
    show ?thesis
      by (cases "signal_handler e w")
         (auto simp: handle_counts_def split: result.splits if_splits)
  qed
qed

lemma except_finally_creations:
  "creations (snd (except_finally r (\<lambda>msg. print (PrintError msg)) (cleanup e) w)) = creations w"
proof -
  obtain r' w1 where h: "(case r of Raise (Error msg) \<Rightarrow> print (PrintError msg) w | _ \<Rightarrow> (r, w))
      = (r', w1)" by (cases "case r of Raise (Error msg) \<Rightarrow> print (PrintError msg) w | _ \<Rightarrow> (r, w)")
  then have c1: "creations w1 = creations w"
    by (auto simp: print_def creations_def split: result.splits exn.splits)
  from keepsD [OF keeps_creations_cleanup, of e w1] c1 h show ?thesis
    by (cases "cleanup e w1") (auto simp: except_finally_def split: result.splits)
qed

lemma main_started:
  "main es w0 =
     (case polling_loop es (started w0) of
        (None, w) \<Rightarrow> (Running, w)
      | (Some (x, e), w) \<Rightarrow>
          (case except_finally (Raise x) (\<lambda>msg. print (PrintError msg)) (cleanup e) w of
             (r, w') \<Rightarrow> (Exited (exit_code r), w')))"
  by (simp add: main_def started_def)

lemma handle_counts_started: "handle_counts (started (initial_world ws a))"
  by (simp add: handle_counts_def started_def initial_world_def creations_def)

lemma main_creations_le: "creations (snd (main es (initial_world ws a))) \<le> 1"
proof (cases "polling_loop es (started (initial_world ws a))")
  case (Pair r w)
  from loop_creations_le [OF handle_counts_started, of es ws a] Pair
  have le: "creations w \<le> 1" by simp
  show ?thesis
  proof (cases r)
    case None
    with Pair le show ?thesis by (simp add: main_started)
  next
    case (Some xe)
    obtain x e where "xe = (x, e)" by (cases xe)
    with Some Pair le except_finally_creations [of "Raise x" e w] show ?thesis
      by (cases "except_finally (Raise x) (\<lambda>msg. print (PrintError msg)) (cleanup e) w")
         (simp add: main_started)
  qed
qed

section \<open>Creation of the overlay\<close>

text \<open>
  Claim C3. In every execution, from the start of the script and whatever the events,
  \<open>CreateWindowEx\<close> is called at most once. While the loop runs, the global is \<^verbatim>\<open>None\<close>
  exactly as long as no creation has been made; once it holds a handle, every further
  pass keeps that very handle and makes no creation. A pass that turns the black bars on
  while there is no overlay is the one that creates it.
\<close>

theorem overlay_created_at_most_once:
  "creations (snd (main es (initial_world ws a))) \<le> 1 \<and>
   (\<forall>w. polling_loop es (started (initial_world ws a)) = (None, w) \<longrightarrow>
      (black_window_hwnd w = None \<longleftrightarrow> creations w = 0) \<and>
      (\<forall>h es' w'. black_window_hwnd w = Some h \<and> polling_loop es' w = (None, w') \<longrightarrow>
         black_window_hwnd w' = Some h \<and> creations w' = creations w)) \<and>
   (\<forall>e w w'. tick e w = (Return (), w') \<and> black_window_hwnd w = None \<and>
       \<not> black_bars_active w \<and> black_bars_active w' \<longrightarrow>
       black_window_hwnd w' = Some (NewWindow e) \<and> creations w' = creations w + 1)"
proof (intro conjI allI impI)
  show "creations (snd (main es (initial_world ws a))) \<le> 1" by (rule main_creations_le)
next
  fix w assume "polling_loop es (started (initial_world ws a)) = (None, w)"
  from loop_handle_counts [OF handle_counts_started this]
  show "black_window_hwnd w = None \<longleftrightarrow> creations w = 0"
    by (simp add: handle_counts_def split: if_splits)
next
  fix w h es' w'
  assume "black_window_hwnd w = Some h \<and> polling_loop es' w = (None, w')"
  then have "black_window_hwnd w' = Some h \<and> creations w' = creations w"
    using loop_stable by blast
  then show "black_window_hwnd w' = Some h" "creations w' = creations w" by simp_all
next
  fix e w w'
  assume a: "tick e w = (Return (), w') \<and> black_window_hwnd w = None \<and>
       \<not> black_bars_active w \<and> black_bars_active w'"
  with tick_Return_handle [of e w w']
  show "black_window_hwnd w' = Some (NewWindow e)" "creations w' = creations w + 1"
    by auto
qed

theorem overlay_created_at_most_once_witness:
  "polling_loop [Poll os_league, Poll os_notepad] (started (initial_world desk0 0))
     = (None, world_after_notepad) \<and>
   black_window_hwnd world_after_notepad = Some 500 \<and>
   creations world_after_notepad = 1 \<and>
   polling_loop [Poll os_league] world_after_notepad
     = (None, snd (polling_loop [Poll os_league] world_after_notepad)) \<and>
   black_window_hwnd (snd (polling_loop [Poll os_league] world_after_notepad)) = Some 500 \<and>
   creations (snd (polling_loop [Poll os_league] world_after_notepad)) = 1 \<and>
   tick os_league (initial_world desk0 0) = (Return (), snd (tick os_league (initial_world desk0 0))) \<and>
   black_window_hwnd (initial_world desk0 0) = None \<and>
   \<not> black_bars_active (initial_world desk0 0) \<and>
   black_bars_active (snd (tick os_league (initial_world desk0 0))) \<and>
   black_window_hwnd (snd (tick os_league (initial_world desk0 0))) = Some (NewWindow os_league) \<and>
   creations (snd (main [Poll os_league, Poll os_notepad] (initial_world desk0 0))) \<le> 1"
proof -
  have a: "polling_loop [Poll os_league, Poll os_notepad] (started (initial_world desk0 0))
     = (None, world_after_notepad)"
    by (simp add: run_defs query_defs example_defs swp_defs)
  have b: "black_window_hwnd world_after_notepad = Some 500"
    "creations world_after_notepad = 1"
    by (simp_all add: creations_def run_defs query_defs example_defs swp_defs)
  have c: "polling_loop [Poll os_league] world_after_notepad
     = (None, snd (polling_loop [Poll os_league] world_after_notepad))"
    by (simp add: run_defs query_defs example_defs swp_defs)
  have d: "tick os_league (initial_world desk0 0)
     = (Return (), snd (tick os_league (initial_world desk0 0)))"
    "black_window_hwnd (initial_world desk0 0) = None"
    "\<not> black_bars_active (initial_world desk0 0)"
    "black_bars_active (snd (tick os_league (initial_world desk0 0)))"
    by (simp_all add: run_defs query_defs example_defs swp_defs)
  note inst = overlay_created_at_most_once [of "[Poll os_league, Poll os_notepad]" desk0 0]
  from inst a b c have e:
    "black_window_hwnd (snd (polling_loop [Poll os_league] world_after_notepad)) = Some 500"
    "creations (snd (polling_loop [Poll os_league] world_after_notepad)) = 1"
    by metis+
  from inst d have f:
    "black_window_hwnd (snd (tick os_league (initial_world desk0 0))) = Some (NewWindow os_league)"
    by blast
  from inst have g:
    "creations (snd (main [Poll os_league, Poll os_notepad] (initial_world desk0 0))) \<le> 1"
    by blast
  from a b c d e f g show ?thesis by simp
qed

section \<open>Cleanup\<close>

lemma show_windows_stdout:
  "show_windows c hs (w\<lparr>stdout := s\<rparr>) = (show_windows c hs w)\<lparr>stdout := s\<rparr>"
  by (simp add: show_windows_def cong: if_cong)

lemma taskbar_cmd_stdout:
  "taskbar_cmd e c (w\<lparr>stdout := s\<rparr>) =
     (case taskbar_cmd e c w of (r, w') \<Rightarrow> (r, w'\<lparr>stdout := s\<rparr>))"
  by (cases "find_taskbar e"; cases "find_start_button e")
     (auto simp: taskbar_cmd_def bind_io_def return_io_def win32gui_ShowWindow
        show_windows_stdout split: option.splits)

lemma cleanup_without_overlay:
  assumes "black_window_hwnd w = None"
  shows "fst (cleanup e w) = fst (show_taskbar e w) \<and>
     observable (snd (cleanup e w)) = observable (snd (show_taskbar e w)) \<and>
     calls (snd (cleanup e w)) = calls (snd (show_taskbar e w))"
proof (cases "taskbar_cmd e SW_SHOW w")
  case (Pair r w1)
  from keepsD [OF keeps_core_taskbar_cmd, of e SW_SHOW w] Pair assms
  have h1: "black_window_hwnd w1 = None" by (simp add: core_def)
  from Pair h1 show ?thesis
    by (cases r)
       (simp_all add: cleanup_def show_taskbar_cmd bind_io_def print_def return_io_def
          taskbar_cmd_stdout observable_def)
qed

text \<open>
  Claim C7. Cleanup is idempotent: from every state, calling \<open>cleanup\<close> twice in a row
  ends as calling it once does (the second call is not reached when the first raises)
  and leaves the same observable state: the globals, the windows and the input focus.
  When no overlay was ever created, the global is \<^verbatim>\<open>None\<close> and cleanup does to the desktop
  exactly what \<open>show_taskbar\<close> does: it makes the same native calls, none of them on an
  overlay, and restores the task bar.
\<close>

theorem cleanup_idempotent:
  "fst (bind_io (cleanup e) (\<lambda>_. cleanup e) w) = fst (cleanup e w) \<and>
   observable (snd (bind_io (cleanup e) (\<lambda>_. cleanup e) w)) = observable (snd (cleanup e w)) \<and>
   (black_window_hwnd w = None \<longrightarrow>
      fst (cleanup e w) = fst (show_taskbar e w) \<and>
      observable (snd (cleanup e w)) = observable (snd (show_taskbar e w)) \<and>
      calls (snd (cleanup e w)) = calls (snd (show_taskbar e w)))"
proof (cases "cleanup e w")
  case (Pair r w1)
  show ?thesis
  proof (cases r)
    case (Return u)
    with Pair have once: "cleanup e w = (Return (), w1)" by simp
    from cleanup_twice [OF once] obtain w2
      where twice: "cleanup e w1 = (Return (), w2)"
        and same: "observable w2 = observable w1" by blast
    show ?thesis
      using once twice same cleanup_without_overlay [of w e] by (simp add: bind_io_def)
  next
    case (Raise x)
    with Pair cleanup_without_overlay [of w e] show ?thesis by (simp add: bind_io_def)
  qed
qed

theorem cleanup_idempotent_witness:
  "black_window_hwnd (initial_world desk0 0) = None \<and>
   fst (cleanup os_league (initial_world desk0 0)) = Return () \<and>
   calls (snd (cleanup os_league (initial_world desk0 0)))
     = [ShowWindow 10 SW_SHOW, ShowWindow 11 SW_SHOW] \<and>
   observable (snd (cleanup os_league (initial_world desk0 0)))
     = observable (snd (show_taskbar os_league (initial_world desk0 0))) \<and>
   observable (snd (bind_io (cleanup os_league) (\<lambda>_. cleanup os_league) world_active))
     = observable (snd (cleanup os_league world_active))"
proof -
  have a: "black_window_hwnd (initial_world desk0 0) = None"
    by (simp add: initial_world_def)
  have b: "fst (show_taskbar os_league (initial_world desk0 0)) = Return ()"
    "calls (snd (show_taskbar os_league (initial_world desk0 0)))
       = [ShowWindow 10 SW_SHOW, ShowWindow 11 SW_SHOW]"
    by (simp_all add: show_taskbar_def bind_io_def return_io_def win32gui_def Let_def
          query_defs example_defs)
  from a b cleanup_idempotent [of os_league "initial_world desk0 0"]
    cleanup_idempotent [of os_league world_active]
  show ?thesis by simp
qed

section \<open>Signals and errors\<close>

lemma loop_signal:
  assumes "cleanup e w = (Return (), w1)"
  shows "polling_loop [Signal e] w = (Some (SystemExit 0, e), w1)"
  using assms by (simp add: signal_handler_def bind_io_def)

text \<open>
  Claim C5, as stated: on a signal the process shows the task bar, destroys the overlay,
  clears the global and exits with code 0, and the same sequence runs when the loop is
  left by an error, without condition. It fails when \<open>ShowWindow\<close> with \<open>SW_SHOW\<close> fails
  on the task bar: \<open>show_taskbar\<close> has no \<^verbatim>\<open>try\<close> around its calls, and \<open>cleanup\<close> calls it
  before it destroys the overlay. With the black bars on, a signal at such an instant
  ends the process with code 1, the overlay still held, alive and visible, the task bar
  still hidden, and \<open>DestroyWindow\<close> never called. The same holds when the pass that turns
  the black bars off raises that error: the overlay is hidden by then, but it is still
  held and alive, the task bar is still hidden and the exit code is 1.
\<close>

theorem restoration_cut_short_when_show_fails:
  "fst (main [Poll os_league, Signal os_show_fails] (initial_world desk_fresh 0)) = Exited 1 \<and>
   black_window_hwnd (snd (main [Poll os_league, Signal os_show_fails]
                             (initial_world desk_fresh 0))) = Some 500 \<and>
   on_screen (snd (main [Poll os_league, Signal os_show_fails]
                     (initial_world desk_fresh 0))) 500 \<and>
   \<not> visible (windows (snd (main [Poll os_league, Signal os_show_fails]
                              (initial_world desk_fresh 0))) 10) \<and>
   DestroyWindow 500 \<notin> set (calls (snd (main [Poll os_league, Signal os_show_fails]
                                         (initial_world desk_fresh 0)))) \<and>
   fst (main [Poll os_league, Poll os_notepad_show_fails] (initial_world desk_fresh 0))
     = Exited 1 \<and>
   black_window_hwnd (snd (main [Poll os_league, Poll os_notepad_show_fails]
                             (initial_world desk_fresh 0))) = Some 500 \<and>
   alive (windows (snd (main [Poll os_league, Poll os_notepad_show_fails]
                          (initial_world desk_fresh 0))) 500) \<and>
   \<not> visible (windows (snd (main [Poll os_league, Poll os_notepad_show_fails]
                              (initial_world desk_fresh 0))) 10) \<and>
   DestroyWindow 500 \<notin> set (calls (snd (main [Poll os_league, Poll os_notepad_show_fails]
                                         (initial_world desk_fresh 0))))"
  by (simp add: main_def except_finally_def exit_code_def banner_def on_screen_def run_defs
        query_defs example_defs swp_defs)

text \<open>
  Claim C5, amended. Provided \<open>ShowWindow\<close> with \<open>SW_SHOW\<close> does not fail on the task bar
  or the Start button that the lookups find: while the loop runs, an interrupt or
  terminate signal makes the process run the restoration sequence and exit with code 0.
  The calls made are \<open>ShowWindow\<close> with \<open>SW_SHOW\<close> on the task bar and the Start button,
  then \<open>DestroyWindow\<close> on the overlay if the script holds one (and, from the \<^verbatim>\<open>finally\<close>
  clause, the two \<open>ShowWindow\<close> calls once more); afterwards the task bar is visible, the
  overlay is gone and the global is \<^verbatim>\<open>None\<close>. When a pass of the loop raises an error
  instead, the error is printed and the same sequence runs, with the same result.
\<close>

theorem restoration_on_signal_and_on_error:
  assumes run: "polling_loop es (started w0) = (None, w)"
    and ok: "\<forall>h\<in>set (taskbar_handles e). raises e (ShowWindow h SW_SHOW) = None"
  shows "(\<exists>w'. main (es @ [Signal e]) w0 = (Exited 0, w') \<and>
            calls w' = calls w @ cleanup_calls e (black_window_hwnd w) @ cleanup_calls e None \<and>
            restored e w w') \<and>
         (\<forall>msg w1. tick e w = (Raise (Error msg), w1) \<longrightarrow>
            (\<exists>w'. main (es @ [Poll e]) w0 = (Exited 0, w') \<and>
               calls w' = calls w1 @ cleanup_calls e (black_window_hwnd w1) \<and>
               stdout w' = stdout w1 @ [PrintError msg, Print ''\<newline>Cleaning up...'',
                                        Print ''Cleanup complete''] \<and>
               restored e w1 w'))"
proof (intro conjI allI impI)
  from cleanup_ok [OF ok, of w] obtain w1 where c1: "cleanup e w = (Return (), w1)" by blast
  from cleanup_ok [OF ok, of w1] obtain w2 where c2: "cleanup e w1 = (Return (), w2)" by blast
  note r1 = cleanup_Return [OF c1] and r2 = cleanup_Return [OF c2]
  have loop: "polling_loop (es @ [Signal e]) (started w0) = (Some (SystemExit 0, e), w1)"
    using run loop_signal [OF c1] by (simp add: polling_loop_snoc)
  have m: "main (es @ [Signal e]) w0 = (Exited 0, w2)"
    using loop c2 by (simp add: main_started except_finally_def exit_code_def)
  have h2: "cleanup_calls e (black_window_hwnd w1) = cleanup_calls e None"
    using r1(1) by (simp add: cleanup_calls_def)
  have calls: "calls w2 = calls w @ cleanup_calls e (black_window_hwnd w) @ cleanup_calls e None"
    using r1(5) r2(5) h2 by simp
  have "restored e w w2"
    using r1 r2 by (auto simp: restored_def destroys_def)
  with m calls
  show "\<exists>w'. main (es @ [Signal e]) w0 = (Exited 0, w') \<and>
            calls w' = calls w @ cleanup_calls e (black_window_hwnd w) @ cleanup_calls e None \<and>
            restored e w w'" by blast
next
  fix msg w1
  assume t: "tick e w = (Raise (Error msg), w1)"
  let ?w1 = "w1\<lparr>stdout := stdout w1 @ [PrintError msg]\<rparr>"
  from cleanup_ok [OF ok, of ?w1] obtain w2 where c: "cleanup e ?w1 = (Return (), w2)" by blast
  note r = cleanup_Return [OF c]
  have loop: "polling_loop (es @ [Poll e]) (started w0) = (Some (Error msg, e), w1)"
    using run t by (simp add: polling_loop_snoc)
  have m: "main (es @ [Poll e]) w0 = (Exited 0, w2)"
    using loop c by (simp add: main_started except_finally_def exit_code_def print_def)
  have "restored e w1 w2"
    using r by (auto simp: restored_def destroys_def)
  with m r(5) r(6)
  show "\<exists>w'. main (es @ [Poll e]) w0 = (Exited 0, w') \<and>
               calls w' = calls w1 @ cleanup_calls e (black_window_hwnd w1) \<and>
               stdout w' = stdout w1 @ [PrintError msg, Print ''\<newline>Cleaning up...'',
                                        Print ''Cleanup complete''] \<and>
               restored e w1 w'" by simp
qed

theorem restoration_on_signal_and_on_error_witness:
  "polling_loop [Poll os_league] (started (initial_world desk0 0)) = (None, world_after_game) \<and>
   taskbar_handles os_league = [10, 11] \<and>
   raises os_league (ShowWindow 10 SW_SHOW) = None \<and>
   raises os_league (ShowWindow 11 SW_SHOW) = None \<and>
   black_bars_active world_after_game \<and>
   destroys os_league world_after_game 500 \<and>
   fst (main ([Poll os_league] @ [Signal os_league]) (initial_world desk0 0)) = Exited 0 \<and>
   restored os_league world_after_game
     (snd (main ([Poll os_league] @ [Signal os_league]) (initial_world desk0 0))) \<and>
   polling_loop [] (started (initial_world desk0 0)) = (None, started (initial_world desk0 0)) \<and>
   taskbar_handles os_setpos_fails = [10, 11] \<and>
   raises os_setpos_fails (ShowWindow 10 SW_SHOW) = None \<and>
   raises os_setpos_fails (ShowWindow 11 SW_SHOW) = None \<and>
   fst (tick os_setpos_fails (started (initial_world desk0 0))) = Raise (Error ''SetWindowPos'') \<and>
   fst (main ([] @ [Poll os_setpos_fails]) (initial_world desk0 0)) = Exited 0"
proof -
  have run1: "polling_loop [Poll os_league] (started (initial_world desk0 0))
      = (None, world_after_game)"
    by (simp add: run_defs query_defs example_defs swp_defs)
  have tb1: "taskbar_handles os_league = [10, 11]"
    "raises os_league (ShowWindow 10 SW_SHOW) = None"
    "raises os_league (ShowWindow 11 SW_SHOW) = None"
    by (simp_all add: query_defs example_defs)
  then have ok1: "\<forall>h\<in>set (taskbar_handles os_league).
      raises os_league (ShowWindow h SW_SHOW) = None"
    by simp
  have st1: "black_bars_active world_after_game" "destroys os_league world_after_game 500"
    by (simp_all add: destroys_def run_defs query_defs example_defs swp_defs)
  have run2: "polling_loop [] (started (initial_world desk0 0))
      = (None, started (initial_world desk0 0))"
    by simp
  have tb2: "taskbar_handles os_setpos_fails = [10, 11]"
    "raises os_setpos_fails (ShowWindow 10 SW_SHOW) = None"
    "raises os_setpos_fails (ShowWindow 11 SW_SHOW) = None"
    by (simp_all add: query_defs example_defs)
  then have ok2: "\<forall>h\<in>set (taskbar_handles os_setpos_fails).
       raises os_setpos_fails (ShowWindow h SW_SHOW) = None"
    by simp
  have t2: "tick os_setpos_fails (started (initial_world desk0 0))
      = (Raise (Error ''SetWindowPos''), snd (tick os_setpos_fails (started (initial_world desk0 0))))"
    by (simp add: run_defs query_defs example_defs swp_defs)
  from restoration_on_signal_and_on_error [OF run1 ok1]
  have c1: "fst (main ([Poll os_league] @ [Signal os_league]) (initial_world desk0 0)) = Exited 0"
    "restored os_league world_after_game
       (snd (main ([Poll os_league] @ [Signal os_league]) (initial_world desk0 0)))"
    by auto
  from restoration_on_signal_and_on_error [OF run2 ok2] t2
  have c2: "fst (main ([] @ [Poll os_setpos_fails]) (initial_world desk0 0)) = Exited 0"
    by (metis fst_conv)
  from t2 have t2': "fst (tick os_setpos_fails (started (initial_world desk0 0)))
      = Raise (Error ''SetWindowPos'')"
    by (metis fst_conv)
  from run1 tb1 st1 run2 tb2 t2' c1 c2 show ?thesis by blast
qed

section \<open>The desktop follows the flag\<close>

lemma tick_bars_inv:
  assumes st: "steady lg mr tbs nw e" and nz: "nw \<noteq> 0" and nt: "nw \<notin> set tbs"
    and inv: "bars_inv lg mr tbs nw w"
    and t: "tick e w = (Return (), w')"
  shows "bars_inv lg mr tbs nw w'"
proof (cases "league_in_front e")
  case True
  note front = this
  show ?thesis
  proof (cases "black_bars_active w")
    case True
    with front t inv show ?thesis by (simp add: tick_cases)
  next
    case False
    with front t have act: "activate_black_bars e (get_foreground_window e) w = (Return (), w')"
      by (simp add: tick_cases)
    from st front have lg: "get_foreground_window e = lg" by (simp add: steady_def)
    show ?thesis
    proof (cases "get_monitor_rect e lg")
      case None
      with act lg have "w' = w\<lparr>stdout := stdout w @
          [Print ''Warning: Could not determine monitor for League window'']\<rparr>"
        by (simp add: activate_black_bars_def print_def)
      with inv show ?thesis by (simp add: bars_inv_def split: option.splits)
    next
      case (Some mr')
      with st have mr': "get_monitor_rect e lg = Some mr" by (simp add: steady_def)
      note a = activate_Return [OF act [unfolded lg] mr']
      from st have tbs: "taskbar_handles e = tbs" and new: "NewWindow e = nw"
        by (simp_all add: steady_def)
      show ?thesis
      proof (cases "black_window_hwnd w")
        case None
        with a(1,2) a(4) tbs new nt show ?thesis
          by (cases mr)
             (auto simp: bars_inv_def overlay_of_def restacked_def new_overlay_def)
      next
        case (Some h)
        with inv have "h = nw" by (simp add: bars_inv_def)
        with Some inv a(1,2) a(4) tbs nt show ?thesis
          by (auto simp: bars_inv_def overlay_of_def restacked_def)
      qed
    qed
  qed
next
  case False
  note away = this
  show ?thesis
  proof (cases "black_bars_active w")
    case False
    with away t inv show ?thesis by (simp add: tick_cases)
  next
    case True
    with away t have de: "deactivate_black_bars e w = (Return (), w')"
      by (simp add: tick_cases)
    note d = deactivate_Return [OF de]
    from st have tbs: "taskbar_handles e = tbs"
      and hide: "raises e (ShowWindow nw SW_HIDE) = None"
      by (simp_all add: steady_def)
    from True inv have held: "black_window_hwnd w = Some nw"
      by (cases "black_window_hwnd w") (simp_all add: bars_inv_def)
    with hide nz have "hides e w nw" by (simp add: hides_def)
    with held inv d(1,2) d(4) tbs nt show ?thesis
      by (auto simp: bars_inv_def)
  qed
qed

lemma loop_bars_inv:
  assumes "\<forall>ev\<in>set es. steady lg mr tbs nw (event_os ev)" and "nw \<noteq> 0" and "nw \<notin> set tbs"
    and "bars_inv lg mr tbs nw w" and "polling_loop es w = (None, w')"
  shows "bars_inv lg mr tbs nw w'"
  using assms
proof (induction es arbitrary: w)
  case Nil
  then show ?case by simp
next
  case (Cons ev es)
  show ?case
  proof (cases ev)
    case (Poll e)
    with Cons.prems(5) obtain w1 where t: "tick e w = (Return (), w1)"
      and rest: "polling_loop es w1 = (None, w')"
      by (cases "tick e w") (auto split: result.splits)
    from Cons.prems(1) Poll have "steady lg mr tbs nw e" by simp
    from tick_bars_inv [OF this Cons.prems(2,3,4) t] have "bars_inv lg mr tbs nw w1" .
    with Cons.IH [OF _ Cons.prems(2,3) _ rest] Cons.prems(1) show ?thesis by simp
  next
    case (Signal e)
    with Cons.prems(5) signal_handler_raises [of e w] show ?thesis
      by (cases "signal_handler e w") (auto split: result.splits)
  qed
qed

subsection \<open>The overlay along every path, also the ones that end in an exception\<close>

lemma holds_or_gone_core: "core w' = core w \<Longrightarrow> holds_or_gone nw w' = holds_or_gone nw w"
  by (auto simp: core_def holds_or_gone_def fun_eq_iff)

lemma tick_holds_or_gone:
  assumes "steady lg mr tbs nw e" and "holds_or_gone nw w"
  shows "holds_or_gone nw (snd (tick e w))"
proof -
  from assms(1) have new: "NewWindow e = nw" by (simp add: steady_def)
  from activate_any [of e "get_foreground_window e" w] assms(2) new
  have "holds_or_gone nw (snd (activate_black_bars e (get_foreground_window e) w))"
    by (auto simp: holds_or_gone_def core_def fun_eq_iff)
  with holds_or_gone_core [OF keepsD [OF keeps_core_deactivate, of e w], of nw] assms(2)
  show ?thesis by (simp add: tick_cases)
qed

lemma taskbar_cmd_Raise:
  "taskbar_cmd e c w = (Raise y, w') \<Longrightarrow> \<exists>msg. y = Error msg"
  by (cases "find_taskbar e"; cases "find_start_button e")
     (auto simp: taskbar_cmd_def bind_io_def return_io_def win32gui_ShowWindow
        split: option.splits if_splits)

lemma cleanup_Raise:
  assumes "cleanup e w = (Raise y, w')"
  shows "(\<exists>msg. y = Error msg) \<and> core w' = core w"
proof (cases "taskbar_cmd e SW_SHOW (w\<lparr>stdout := stdout w @ [Print ''\<newline>Cleaning up...'']\<rparr>)")
  case (Pair r w1)
  show ?thesis
  proof (cases r)
    case (Return u)
    with Pair have "fst (cleanup e w) = Return ()"
      by (cases "black_window_hwnd w1")
         (auto simp: cleanup_def show_taskbar_cmd bind_io_def print_def return_io_def
            destroy_black_window_eq)
    with assms show ?thesis by simp
  next
    case (Raise x)
    with Pair assms have "y = x" "w' = w1"
      by (simp_all add: cleanup_def show_taskbar_cmd bind_io_def print_def)
    with Pair Raise taskbar_cmd_Raise [of e SW_SHOW _ x w1]
      keepsD [OF keeps_core_taskbar_cmd, of e SW_SHOW
        "w\<lparr>stdout := stdout w @ [Print ''\<newline>Cleaning up...'']\<rparr>"]
    show ?thesis by (auto simp: core_def creations_def)
  qed
qed

lemma cleanup_gone:
  assumes st: "steady lg mr tbs nw e" and nz: "nw \<noteq> 0" and h: "holds_or_gone nw w"
    and c: "cleanup e w = (Return (), w')"
  shows "black_window_hwnd w' = None \<and> \<not> alive (windows w' nw) \<and>
         (\<forall>t\<in>set tbs. visible (windows w' t))"
proof -
  note r = cleanup_Return [OF c]
  from st have tbs: "taskbar_handles e = tbs" and d: "raises e (DestroyWindow nw) = None"
    by (simp_all add: steady_def)
  from h nz d r(1) r(4) tbs show ?thesis
    by (auto simp: holds_or_gone_def destroys_def)
qed

lemma cleanup_holds_or_gone:
  assumes st: "steady lg mr tbs nw e" and nz: "nw \<noteq> 0" and h: "holds_or_gone nw w"
  shows "holds_or_gone nw (snd (cleanup e w))"
proof (cases "cleanup e w")
  case (Pair r w')
  show ?thesis
  proof (cases r)
    case (Return u)
    with Pair cleanup_gone [OF st nz h, of w'] show ?thesis by (simp add: holds_or_gone_def)
  next
    case (Raise y)
    with Pair cleanup_Raise [of e w y w'] h holds_or_gone_core [of w' w nw] show ?thesis
      by simp
  qed
qed

lemma signal_handler_snd: "snd (signal_handler e w) = snd (cleanup e w)"
  by (cases "cleanup e w") (auto simp: signal_handler_def bind_io_def split: result.splits)

lemma loop_exit:
  assumes "\<forall>ev\<in>set es. steady lg mr tbs nw (event_os ev)" and "nw \<noteq> 0"
    and "holds_or_gone nw w"
  shows "holds_or_gone nw (snd (polling_loop es w)) \<and>
         (\<forall>x e. fst (polling_loop es w) = Some (x, e) \<longrightarrow> steady lg mr tbs nw e)"
  using assms
proof (induction es arbitrary: w)
  case Nil
  then show ?case by simp
next
  case (Cons ev es)
  show ?case
  proof (cases ev)
    case (Poll e)
    with Cons.prems(1) have st: "steady lg mr tbs nw e" by simp
    from tick_holds_or_gone [OF st Cons.prems(3)]
    have h1: "holds_or_gone nw (snd (tick e w))" .
    from Cons.prems(1) have rest: "\<forall>ev\<in>set es. steady lg mr tbs nw (event_os ev)" by simp
    from Cons.IH [OF rest Cons.prems(2) h1] h1 st Poll show ?thesis
      by (cases "tick e w") (auto split: result.splits)
  next
    case (Signal e)
    with Cons.prems(1) have st: "steady lg mr tbs nw e" by simp
    from cleanup_holds_or_gone [OF st Cons.prems(2,3)]
    have h1: "holds_or_gone nw (snd (signal_handler e w))" by (simp add: signal_handler_snd)
    from Cons.prems(1) have rest: "\<forall>ev\<in>set es. steady lg mr tbs nw (event_os ev)" by simp
    from Cons.IH [OF rest Cons.prems(2) h1] h1 st Signal show ?thesis
      by (cases "signal_handler e w") (auto split: result.splits)
  qed
qed

lemma exit_0_cleanup:
  assumes "except_finally (Raise x) (\<lambda>msg. print (PrintError msg)) (cleanup e) w = (r, w')"
    and "exit_code r = 0"
  shows "\<exists>w1. core w1 = core w \<and> cleanup e w1 = (Return (), w')"
proof -
  define w1 where "w1 = (case x of Error msg \<Rightarrow> w\<lparr>stdout := stdout w @ [PrintError msg]\<rparr>
                          | SystemExit c \<Rightarrow> w)"
  have c1: "core w1 = core w"
    by (cases x) (simp_all add: w1_def core_def creations_def)
  have ef: "except_finally (Raise x) (\<lambda>msg. print (PrintError msg)) (cleanup e) w =
      (case cleanup e w1 of
         (Return _, w2) \<Rightarrow> (case x of Error msg \<Rightarrow> Return () | SystemExit c \<Rightarrow> Raise x, w2)
       | (Raise y, w2) \<Rightarrow> (Raise y, w2))"
    by (cases x)
       (auto simp: except_finally_def print_def w1_def split: prod.splits result.splits)
  show ?thesis
  proof (cases "cleanup e w1")
    case (Pair r2 w2)
    show ?thesis
    proof (cases r2)
      case (Return u)
      with Pair ef assms(1) c1 show ?thesis by auto
    next
      case (Raise y)
      with Pair cleanup_Raise [of e w1 y w2] obtain msg where "y = Error msg" by auto
      with Pair Raise ef assms show ?thesis
        by (auto simp: exit_code_def)
    qed
  qed
qed

lemma bars_inv_started:
  assumes "\<forall>t\<in>set tbs. visible (ws t)" and "\<not> alive (ws nw)"
  shows "bars_inv lg mr tbs nw (started (initial_world ws a))"
  using assms by (simp add: bars_inv_def started_def initial_world_def)

lemma holds_or_gone_started:
  "\<not> alive (ws nw) \<Longrightarrow> holds_or_gone nw (started (initial_world ws a))"
  by (simp add: holds_or_gone_def started_def initial_world_def)

text \<open>
  Claim C2, as stated: after every tick and after every exit path, a flag that is on
  means that the overlay is shown, directly behind the game window, sized to that
  window's monitor, and that the task bar is hidden. It fails on the exit paths, since
  \<open>cleanup\<close> restores the desktop and leaves the flag as it is: after one pass with the
  game window in front and a signal, the process has exited with the flag on, the
  overlay destroyed and the task bar visible. It also fails after a tick when the game
  window has moved to another monitor between two activations, since the overlay is
  created once and neither moved nor resized afterwards: the flag is on and the overlay
  still covers the first monitor.
\<close>

theorem flag_on_with_desktop_restored_or_other_monitor:
  "fst (main [Poll os_league, Signal os_league] (initial_world desk_fresh 0)) = Exited 0 \<and>
   black_bars_active (snd (main [Poll os_league, Signal os_league] (initial_world desk_fresh 0))) \<and>
   \<not> alive (windows (snd (main [Poll os_league, Signal os_league]
                              (initial_world desk_fresh 0))) 500) \<and>
   visible (windows (snd (main [Poll os_league, Signal os_league]
                            (initial_world desk_fresh 0))) 10) \<and>
   fst (main [Poll os_league, Poll os_notepad, Poll os_second_monitor]
          (initial_world desk_fresh 0)) = Running \<and>
   black_bars_active (snd (main [Poll os_league, Poll os_notepad, Poll os_second_monitor]
                             (initial_world desk_fresh 0))) \<and>
   black_window_hwnd (snd (main [Poll os_league, Poll os_notepad, Poll os_second_monitor]
                             (initial_world desk_fresh 0))) = Some 500 \<and>
   get_monitor_rect os_second_monitor (get_foreground_window os_second_monitor)
     = Some (1920, 0, 3840, 1080) \<and>
   w_pos (windows (snd (main [Poll os_league, Poll os_notepad, Poll os_second_monitor]
                          (initial_world desk_fresh 0))) 500) = (0, 0) \<and>
   w_size (windows (snd (main [Poll os_league, Poll os_notepad, Poll os_second_monitor]
                           (initial_world desk_fresh 0))) 500) = (1920, 1080)"
  by (simp add: main_def except_finally_def exit_code_def banner_def run_defs query_defs
        example_defs swp_defs)

text \<open>
  Claim C2, amended. Take a steady environment: the lookups keep finding the same task
  bar and Start button, the game window keeps its handle and its monitor rectangle, the
  overlay gets a handle that is not 0, is not the task bar's and is not in use before,
  hiding and destroying the overlay do not fail, and the task bar is visible at the
  start. Then after every tick, while the loop runs: when the flag is on, the overlay is
  on the screen, directly behind the game window, at the position and of the size of
  that window's monitor, and the task bar and the Start button are hidden; when the
  flag is off, the overlay, if it has been created, is hidden, and the task bar and the
  Start button are visible. After an exit path (signal or error) on which the cleanup
  completes, the task bar and the Start button are visible, the overlay is destroyed and
  the global is \<^verbatim>\<open>None\<close>, whatever the flag, which the cleanup does not change.
\<close>

theorem desktop_follows_flag:
  assumes "\<forall>ev\<in>set es. steady lg mr tbs nw (event_os ev)"
    and "nw \<noteq> 0" and "nw \<notin> set tbs"
    and "\<forall>t\<in>set tbs. visible (ws t)" and "\<not> alive (ws nw)"
  shows "(\<forall>w. main es (initial_world ws a) = (Running, w) \<longrightarrow>
            (black_bars_active w \<longrightarrow>
               black_window_hwnd w = Some nw \<and> on_screen w nw \<and>
               insert_after (windows w nw) = Some lg \<and>
               w_pos (windows w nw) = (fst mr, fst (snd mr)) \<and>
               w_size (windows w nw) =
                 (fst (snd (snd mr)) - fst mr, snd (snd (snd mr)) - fst (snd mr)) \<and>
               (\<forall>t\<in>set tbs. \<not> visible (windows w t))) \<and>
            (\<not> black_bars_active w \<longrightarrow>
               (\<forall>h. black_window_hwnd w = Some h \<longrightarrow> \<not> visible (windows w h)) \<and>
               (\<forall>t\<in>set tbs. visible (windows w t)))) \<and>
         (\<forall>w. main es (initial_world ws a) = (Exited 0, w) \<longrightarrow>
            black_window_hwnd w = None \<and> \<not> alive (windows w nw) \<and>
            (\<forall>t\<in>set tbs. visible (windows w t)))"
proof -
  have running:
    "(black_bars_active w \<longrightarrow>
               black_window_hwnd w = Some nw \<and> on_screen w nw \<and>
               insert_after (windows w nw) = Some lg \<and>
               w_pos (windows w nw) = (fst mr, fst (snd mr)) \<and>
               w_size (windows w nw) =
                 (fst (snd (snd mr)) - fst mr, snd (snd (snd mr)) - fst (snd mr)) \<and>
               (\<forall>t\<in>set tbs. \<not> visible (windows w t))) \<and>
            (\<not> black_bars_active w \<longrightarrow>
               (\<forall>h. black_window_hwnd w = Some h \<longrightarrow> \<not> visible (windows w h)) \<and>
               (\<forall>t\<in>set tbs. visible (windows w t)))"
    if "main es (initial_world ws a) = (Running, w)" for w
  proof -
    from that have run: "polling_loop es (started (initial_world ws a)) = (None, w)"
      by (cases "polling_loop es (started (initial_world ws a))")
         (auto simp: main_started split: option.splits prod.splits)
    have "bars_inv lg mr tbs nw (started (initial_world ws a))"
      using assms(4,5) by (rule bars_inv_started)
    from loop_bars_inv [OF assms(1,2,3) this run]
    have inv: "bars_inv lg mr tbs nw w" .
    then show ?thesis
      by (cases "black_window_hwnd w") (auto simp: bars_inv_def on_screen_def)
  qed
  have exited:
    "black_window_hwnd w = None \<and> \<not> alive (windows w nw) \<and>
     (\<forall>t\<in>set tbs. visible (windows w t))"
    if m: "main es (initial_world ws a) = (Exited 0, w)" for w
  proof -
    from m obtain x e w0 r
      where loop: "polling_loop es (started (initial_world ws a)) = (Some (x, e), w0)"
        and ef: "except_finally (Raise x) (\<lambda>msg. print (PrintError msg)) (cleanup e) w0 = (r, w)"
        and code: "exit_code r = 0"
      by (cases "polling_loop es (started (initial_world ws a))")
         (auto simp: main_started split: option.splits prod.splits)
    have "holds_or_gone nw (started (initial_world ws a))"
      using assms(5) by (rule holds_or_gone_started)
    from loop_exit [OF assms(1,2) this] loop
    have h0: "holds_or_gone nw w0" and st: "steady lg mr tbs nw e" by auto
    from exit_0_cleanup [OF ef code] obtain w1 where c1: "core w1 = core w0"
      and cl: "cleanup e w1 = (Return (), w)" by blast
    from h0 holds_or_gone_core [OF c1, of nw] have "holds_or_gone nw w1" by simp
    from cleanup_gone [OF st assms(2) this cl] show ?thesis .
  qed
  from running exited show ?thesis by blast
qed

theorem desktop_follows_flag_witness:
  "steady 100 (0, 0, 1920, 1080) [10, 11] 500 os_league \<and>
   steady 100 (0, 0, 1920, 1080) [10, 11] 500 os_notepad \<and>
   (500::int) \<noteq> 0 \<and> 500 \<notin> set [10, 11 :: int] \<and>
   visible (desk_fresh 10) \<and> visible (desk_fresh 11) \<and> \<not> alive (desk_fresh 500) \<and>
   fst (main [Poll os_league, Poll os_notepad, Poll os_league] (initial_world desk_fresh 0))
     = Running \<and>
   black_bars_active (snd (main [Poll os_league, Poll os_notepad, Poll os_league]
                             (initial_world desk_fresh 0))) \<and>
   on_screen (snd (main [Poll os_league, Poll os_notepad, Poll os_league]
                     (initial_world desk_fresh 0))) 500 \<and>
   w_size (windows (snd (main [Poll os_league, Poll os_notepad, Poll os_league]
                           (initial_world desk_fresh 0))) 500) = (1920, 1080) \<and>
   \<not> visible (windows (snd (main [Poll os_league, Poll os_notepad, Poll os_league]
                              (initial_world desk_fresh 0))) 10) \<and>
   fst (main [Poll os_league, Signal os_league] (initial_world desk_fresh 0)) = Exited 0 \<and>
   black_window_hwnd (snd (main [Poll os_league, Signal os_league]
                             (initial_world desk_fresh 0))) = None \<and>
   visible (windows (snd (main [Poll os_league, Signal os_league]
                            (initial_world desk_fresh 0))) 10)"
proof -
  have st: "steady 100 (0, 0, 1920, 1080) [10, 11] 500 os_league"
    "steady 100 (0, 0, 1920, 1080) [10, 11] 500 os_notepad"
    by (simp_all add: steady_def league_in_front_def query_defs example_defs SW_HIDE_def)
  then have s1: "\<forall>ev\<in>set [Poll os_league, Poll os_notepad, Poll os_league].
      steady 100 (0, 0, 1920, 1080) [10, 11] 500 (event_os ev)"
    and s2: "\<forall>ev\<in>set [Poll os_league, Signal os_league].
      steady 100 (0, 0, 1920, 1080) [10, 11] 500 (event_os ev)"
    by simp_all
  have vis: "visible (desk_fresh 10)" "visible (desk_fresh 11)"
    by (simp_all add: example_defs)
  have c: "(500::int) \<noteq> 0" "500 \<notin> set [10, 11 :: int]"
    "\<forall>t\<in>set [10, 11]. visible (desk_fresh t)" "\<not> alive (desk_fresh 500)"
    by (simp_all add: example_defs)
  have r1: "main [Poll os_league, Poll os_notepad, Poll os_league] (initial_world desk_fresh 0)
      = (Running, snd (main [Poll os_league, Poll os_notepad, Poll os_league]
                         (initial_world desk_fresh 0)))"
    "black_bars_active (snd (main [Poll os_league, Poll os_notepad, Poll os_league]
                             (initial_world desk_fresh 0)))"
    by (simp_all add: main_def banner_def run_defs query_defs example_defs swp_defs)
  have r2: "main [Poll os_league, Signal os_league] (initial_world desk_fresh 0)
      = (Exited 0, snd (main [Poll os_league, Signal os_league] (initial_world desk_fresh 0)))"
    by (simp add: main_def except_finally_def exit_code_def banner_def run_defs query_defs
          example_defs swp_defs)
  from desktop_follows_flag [OF s1 c, of 0] r1
  have a1: "on_screen (snd (main [Poll os_league, Poll os_notepad, Poll os_league]
                     (initial_world desk_fresh 0))) 500"
    "w_size (windows (snd (main [Poll os_league, Poll os_notepad, Poll os_league]
                           (initial_world desk_fresh 0))) 500) = (1920, 1080)"
    "\<not> visible (windows (snd (main [Poll os_league, Poll os_notepad, Poll os_league]
                              (initial_world desk_fresh 0))) 10)"
    by auto
  from desktop_follows_flag [OF s2 c, of 0] r2
  have a2: "black_window_hwnd (snd (main [Poll os_league, Signal os_league]
                             (initial_world desk_fresh 0))) = None"
    "visible (windows (snd (main [Poll os_league, Signal os_league]
                            (initial_world desk_fresh 0))) 10)"
    by auto
  from r1(1) have f1: "fst (main [Poll os_league, Poll os_notepad, Poll os_league]
      (initial_world desk_fresh 0)) = Running" by (metis fst_conv)
  from r2 have f2: "fst (main [Poll os_league, Signal os_league] (initial_world desk_fresh 0))
      = Exited 0" by (metis fst_conv)
  from st vis c(1,2,4) r1(2) a1 a2 f1 f2 show ?thesis by blast
qed

end
